theory Spec2Isabelle
  imports Main
begin

section \<open>JavaScript strings and numbers used by the task manager\<close>

text \<open>
  Strings are lists of code units, of which the model has the first 256.  Instants are
  milliseconds since the epoch, as
  \<^verbatim>\<open>Date.now()\<close> returns them; a \<^verbatim>\<open>Date\<close> object is either a valid
  instant or \<^verbatim>\<open>Invalid Date\<close>.
\<close>

datatype jsdate = Date int | InvalidDate

definition is_ws :: "char \<Rightarrow> bool" where
  \<comment> \<open>the white space and line terminators that \<^verbatim>\<open>String.prototype.trim\<close> removes\<close>
  "is_ws c = (c \<in> set [CHR 0x09, CHR 0x0A, CHR 0x0B, CHR 0x0C, CHR 0x0D, CHR 0x20, CHR 0xA0])"

definition trim :: "string \<Rightarrow> string" where
  "trim s = rev (dropWhile is_ws (rev (dropWhile is_ws s)))"

definition startsWith :: "string \<Rightarrow> string \<Rightarrow> bool" where
  \<comment> \<open>\<^verbatim>\<open>s.startsWith(p)\<close>\<close>
  "startsWith p s = (take (length p) s = p)"

fun split_on :: "char \<Rightarrow> string \<Rightarrow> string list" where
  \<comment> \<open>\<^verbatim>\<open>s.split(c)\<close> for a one-character separator\<close>
  "split_on c [] = [ [] ]"
| "split_on c (x # xs) =
     (if x = c then [] # split_on c xs
      else (case split_on c xs of [] \<Rightarrow> [ [x] ] | p # ps \<Rightarrow> (x # p) # ps))"

fun replace_first :: "string \<Rightarrow> string \<Rightarrow> string \<Rightarrow> string" where
  \<comment> \<open>\<^verbatim>\<open>s.replace(pat, rep)\<close> with a string pattern: the first occurrence only\<close>
  "replace_first pat rep [] = (if pat = [] then rep else [])"
| "replace_first pat rep (c # cs) =
     (if startsWith pat (c # cs) then rep @ drop (length pat) (c # cs)
      else c # replace_first pat rep cs)"

definition lower_char :: "char \<Rightarrow> char" where
  "lower_char c =
     (let n = (of_char c :: nat) in if 65 \<le> n \<and> n \<le> 90 then char_of (n + 32) else c)"

definition toLowerCase :: "string \<Rightarrow> string" where
  "toLowerCase s = map lower_char s"

definition digit_val :: "char \<Rightarrow> nat option" where
  \<comment> \<open>the value of a digit in radix up to 36\<close>
  "digit_val c =
     (let n = (of_char c :: nat) in
      if 48 \<le> n \<and> n \<le> 57 then Some (n - 48)
      else if 97 \<le> n \<and> n \<le> 122 then Some (n - 87)
      else if 65 \<le> n \<and> n \<le> 90 then Some (n - 55)
      else None)"

definition is_digit_in :: "nat \<Rightarrow> char \<Rightarrow> bool" where
  "is_digit_in radix c = (case digit_val c of None \<Rightarrow> False | Some d \<Rightarrow> d < radix)"

definition digits_value :: "nat \<Rightarrow> string \<Rightarrow> nat" where
  "digits_value radix ds = foldl (\<lambda>acc c. acc * radix + (case digit_val c of None \<Rightarrow> 0 | Some d \<Rightarrow> d)) 0 ds"

definition parseInt :: "string \<Rightarrow> int option" where
  \<comment> \<open>\<^verbatim>\<open>parseInt(s)\<close> with no radix argument; \<open>None\<close> is \<^verbatim>\<open>NaN\<close>\<close>
  "parseInt s =
     (let s1 = dropWhile is_ws s;
          neg = (s1 \<noteq> [] \<and> hd s1 = CHR ''-'');
          s2 = (if s1 \<noteq> [] \<and> (hd s1 = CHR ''-'' \<or> hd s1 = CHR ''+'') then tl s1 else s1);
          hex = (startsWith ''0x'' s2 \<or> startsWith ''0X'' s2);
          radix = (if hex then 16 else 10);
          s3 = (if hex then drop 2 s2 else s2);
          ds = takeWhile (is_digit_in radix) s3
      in if ds = [] then None
         else Some ((if neg then - 1 else 1) * int (digits_value radix ds)))"

definition max_time :: int where
  \<comment> \<open>the largest time value of a \<^verbatim>\<open>Date\<close>\<close>
  "max_time = 8640000000000000"

definition make_date :: "int \<Rightarrow> jsdate" where
  "make_date t = (if - max_time \<le> t \<and> t \<le> max_time then Date t else InvalidDate)"

text \<open>
  The methods \<^verbatim>\<open>getMinutes\<close>, \<^verbatim>\<open>setMinutes\<close>, \<^verbatim>\<open>getHours\<close> and
  \<^verbatim>\<open>setHours\<close> work on local time.  The time zone of the process gives, for an
  instant, the offset of local time from it, and, for a local time value, the offset with
  which that value is read back as an instant.  A local time that a transition repeats or
  skips is read with the offset before the transition.
\<close>

record time_zone =
  tza_utc :: "int \<Rightarrow> int"
  tza_local :: "int \<Rightarrow> int"

definition fixed_zone :: "int \<Rightarrow> time_zone" where
  \<comment> \<open>a zone whose offset never changes\<close>
  "fixed_zone off = \<lparr> tza_utc = (\<lambda>t. off), tza_local = (\<lambda>t. off) \<rparr>"

definition one_transition_zone :: "int \<Rightarrow> int \<Rightarrow> int \<Rightarrow> time_zone" where
  \<comment> \<open>a zone whose offset changes once, at instant \<open>T\<close>\<close>
  "one_transition_zone T before after =
     \<lparr> tza_utc = (\<lambda>t. if t < T then before else after),
       tza_local = (\<lambda>tl. if tl < T + max before after then before else after) \<rparr>"

definition local_plus :: "time_zone \<Rightarrow> int \<Rightarrow> int \<Rightarrow> jsdate" where
  \<comment> \<open>the instant \<open>t\<close> is taken to local time, one of its fields is moved by \<open>delta\<close>
      milliseconds, and the local time is read back\<close>
  "local_plus tz t delta =
     (let tl = t + tza_utc tz t + delta in make_date (tl - tza_local tz tl))"

definition setMinutes_plus :: "time_zone \<Rightarrow> jsdate \<Rightarrow> int option \<Rightarrow> jsdate" where
  \<comment> \<open>\<^verbatim>\<open>d.setMinutes(d.getMinutes() + m)\<close>\<close>
  "setMinutes_plus tz d m =
     (case d of InvalidDate \<Rightarrow> InvalidDate
      | Date t \<Rightarrow> (case m of None \<Rightarrow> InvalidDate | Some k \<Rightarrow> local_plus tz t (k * 60000)))"

definition setHours_plus :: "time_zone \<Rightarrow> jsdate \<Rightarrow> int \<Rightarrow> jsdate" where
  \<comment> \<open>\<^verbatim>\<open>d.setHours(d.getHours() + h)\<close>\<close>
  "setHours_plus tz d h =
     (case d of InvalidDate \<Rightarrow> InvalidDate | Date t \<Rightarrow> local_plus tz t (h * 3600000))"

section \<open>JSON values, \<^verbatim>\<open>JSON.stringify\<close> and \<^verbatim>\<open>JSON.parse\<close>\<close>

text \<open>
  The payload of a task is a JSON value.  Numbers are the integers; an object is the
  list of its properties in enumeration order.  A number with a fraction or an exponent
  and an escape for a code unit above 255 are outside the model: reading them gives
  \<open>None\<close>, as a syntax error does.
\<close>

datatype json =
    JNull
  | JBool bool
  | JNum int
  | JStr string
  | JArr "json list"
  | JObj "(string \<times> json) list"

fun truthy :: "json \<Rightarrow> bool" where
  "truthy JNull = False"
| "truthy (JBool b) = b"
| "truthy (JNum n) = (n \<noteq> 0)"
| "truthy (JStr s) = (s \<noteq> [])"
| "truthy (JArr xs) = True"
| "truthy (JObj kvs) = True"

definition digit_char :: "nat \<Rightarrow> char" where
  "digit_char d = (if d < 10 then char_of (48 + d) else char_of (87 + d))"

function dec_digits :: "nat \<Rightarrow> string" where
  "dec_digits n = (if n < 10 then [digit_char n] else dec_digits (n div 10) @ [digit_char (n mod 10)])"
  by pat_completeness auto
termination
  by (relation "measure id") auto

declare dec_digits.simps [simp del]

definition int_str :: "int \<Rightarrow> string" where
  "int_str i = (if i < 0 then CHR ''-'' # dec_digits (nat (- i)) else dec_digits (nat i))"

definition esc_char :: "char \<Rightarrow> string" where
  \<comment> \<open>one code unit inside a quoted JSON string\<close>
  "esc_char c =
     (if c = CHR 0x22 then [CHR 0x5C, CHR 0x22]
      else if c = CHR 0x5C then [CHR 0x5C, CHR 0x5C]
      else if c = CHR 0x08 then [CHR 0x5C, CHR ''b'']
      else if c = CHR 0x0C then [CHR 0x5C, CHR ''f'']
      else if c = CHR 0x0A then [CHR 0x5C, CHR ''n'']
      else if c = CHR 0x0D then [CHR 0x5C, CHR ''r'']
      else if c = CHR 0x09 then [CHR 0x5C, CHR ''t'']
      else if (of_char c :: nat) < 32
        then [CHR 0x5C, CHR ''u'', CHR ''0'', CHR ''0'',
              digit_char ((of_char c :: nat) div 16), digit_char ((of_char c :: nat) mod 16)]
      else [c])"

definition quote :: "string \<Rightarrow> string" where
  "quote s = CHR 0x22 # concat (map esc_char s) @ [CHR 0x22]"

fun join_with :: "string \<Rightarrow> string list \<Rightarrow> string" where
  "join_with sep [] = []"
| "join_with sep [x] = x"
| "join_with sep (x # y # ys) = x @ sep @ join_with sep (y # ys)"

fun JSON_stringify :: "json \<Rightarrow> string" where
  "JSON_stringify JNull = ''null''"
| "JSON_stringify (JBool b) = (if b then ''true'' else ''false'')"
| "JSON_stringify (JNum n) = int_str n"
| "JSON_stringify (JStr s) = quote s"
| "JSON_stringify (JArr xs) = ''['' @ join_with '','' (map JSON_stringify xs) @ '']''"
| "JSON_stringify (JObj kvs) =
     ''{'' @ join_with '','' (map (\<lambda>(k, v). quote k @ '':'' @ JSON_stringify v) kvs) @ ''}''"

definition is_json_ws :: "char \<Rightarrow> bool" where
  "is_json_ws c = (c = CHR 0x20 \<or> c = CHR 0x09 \<or> c = CHR 0x0A \<or> c = CHR 0x0D)"

definition skip_ws :: "string \<Rightarrow> string" where
  "skip_ws s = dropWhile is_json_ws s"

definition unescape :: "char \<Rightarrow> char option" where
  "unescape e =
     (if e = CHR 0x22 then Some (CHR 0x22)
      else if e = CHR 0x5C then Some (CHR 0x5C)
      else if e = CHR ''/'' then Some (CHR ''/'')
      else if e = CHR ''b'' then Some (CHR 0x08)
      else if e = CHR ''f'' then Some (CHR 0x0C)
      else if e = CHR ''n'' then Some (CHR 0x0A)
      else if e = CHR ''r'' then Some (CHR 0x0D)
      else if e = CHR ''t'' then Some (CHR 0x09)
      else None)"

definition hex4 :: "string \<Rightarrow> char option" where
  \<comment> \<open>the code unit of \<^verbatim>\<open>\uXXXX\<close>; code units above 255 are outside the model\<close>
  "hex4 s =
     (let ds = take 4 s in
      if length ds = 4 \<and> list_all (is_digit_in 16) ds \<and> digits_value 16 ds < 256
      then Some (char_of (digits_value 16 ds)) else None)"

fun parse_chars :: "string \<Rightarrow> (string \<times> string) option" where
  \<comment> \<open>the characters of a string literal after its opening quote, and the rest of the input\<close>
  "parse_chars [] = None"
| "parse_chars (c # cs) =
     (if c = CHR 0x22 then Some ([], cs)
      else if c = CHR 0x5C then
        (case cs of
           [] \<Rightarrow> None
         | e # r \<Rightarrow>
             if e = CHR ''u'' then
               (case hex4 r of
                  None \<Rightarrow> None
                | Some ch \<Rightarrow>
                    (case parse_chars (drop 4 r) of
                       None \<Rightarrow> None
                     | Some (s, rest) \<Rightarrow> Some (ch # s, rest)))
             else
               (case unescape e of
                  None \<Rightarrow> None
                | Some ch \<Rightarrow>
                    (case parse_chars r of
                       None \<Rightarrow> None
                     | Some (s, rest) \<Rightarrow> Some (ch # s, rest))))
      else if (of_char c :: nat) < 32 then None
      else (case parse_chars cs of
              None \<Rightarrow> None
            | Some (s, rest) \<Rightarrow> Some (c # s, rest)))"

definition parse_number :: "string \<Rightarrow> (json \<times> string) option" where
  \<comment> \<open>an integer literal; a fraction or an exponent is outside the model\<close>
  "parse_number s =
     (let neg = (s \<noteq> [] \<and> hd s = CHR ''-'');
          s1 = (if neg then tl s else s);
          ds = takeWhile (is_digit_in 10) s1;
          rest = dropWhile (is_digit_in 10) s1
      in if ds = [] then None
         else if 1 < length ds \<and> hd ds = CHR ''0'' then None
         else if rest \<noteq> [] \<and> hd rest \<in> set ''.eE'' then None
         else Some (JNum ((if neg then - 1 else 1) * int (digits_value 10 ds)), rest))"

definition is_array_index :: "string \<Rightarrow> bool" where
  \<comment> \<open>a property name that is a canonical array index; such properties are enumerated first\<close>
  "is_array_index k =
     (k \<noteq> [] \<and> list_all (is_digit_in 10) k \<and> (length k = 1 \<or> hd k \<noteq> CHR ''0'')
      \<and> int (digits_value 10 k) < 4294967295)"

fun obj_insert :: "(string \<times> json) list \<Rightarrow> string \<Rightarrow> json \<Rightarrow> (string \<times> json) list" where
  \<comment> \<open>define property \<open>k\<close> of an object: an existing property keeps its place, a new array
      index goes in numeric order among the indices, any other new name goes last\<close>
  "obj_insert [] k v = [(k, v)]"
| "obj_insert ((k', v') # kvs) k v =
     (if k' = k then (k', v) # kvs
      else if k \<notin> fst ` set kvs \<and> is_array_index k
              \<and> (\<not> is_array_index k' \<or> digits_value 10 k < digits_value 10 k')
        then (k, v) # (k', v') # kvs
      else (k', v') # obj_insert kvs k v)"

definition build_object :: "(string \<times> json) list \<Rightarrow> (string \<times> json) list" where
  "build_object members = foldl (\<lambda>acc (k, v). obj_insert acc k v) [] members"

fun parse_value :: "nat \<Rightarrow> string \<Rightarrow> (json \<times> string) option"
  and parse_elems :: "nat \<Rightarrow> string \<Rightarrow> (json list \<times> string) option"
  and parse_members :: "nat \<Rightarrow> string \<Rightarrow> ((string \<times> json) list \<times> string) option"
where
  "parse_value 0 s = None"
| "parse_value (Suc n) s =
     (let t = skip_ws s in
      if startsWith ''null'' t then Some (JNull, drop 4 t)
      else if startsWith ''true'' t then Some (JBool True, drop 4 t)
      else if startsWith ''false'' t then Some (JBool False, drop 5 t)
      else (case t of
              [] \<Rightarrow> None
            | c # r \<Rightarrow>
                if c = CHR 0x22 then
                  (case parse_chars r of None \<Rightarrow> None | Some (str, rest) \<Rightarrow> Some (JStr str, rest))
                else if c = CHR ''['' then
                  (case skip_ws r of
                     [] \<Rightarrow> None
                   | d # r' \<Rightarrow>
                       if d = CHR '']'' then Some (JArr [], r')
                       else (case parse_elems n r of
                               None \<Rightarrow> None
                             | Some (vs, rest) \<Rightarrow> Some (JArr vs, rest)))
                else if c = CHR ''{'' then
                  (case skip_ws r of
                     [] \<Rightarrow> None
                   | d # r' \<Rightarrow>
                       if d = CHR ''}'' then Some (JObj [], r')
                       else (case parse_members n r of
                               None \<Rightarrow> None
                             | Some (kvs, rest) \<Rightarrow> Some (JObj (build_object kvs), rest)))
                else parse_number t))"
| "parse_elems 0 s = None"
| "parse_elems (Suc n) s =
     (case parse_value n s of
        None \<Rightarrow> None
      | Some (v, r) \<Rightarrow>
          (case skip_ws r of
             [] \<Rightarrow> None
           | d # r' \<Rightarrow>
               if d = CHR '','' then
                 (case parse_elems n r' of None \<Rightarrow> None | Some (vs, rest) \<Rightarrow> Some (v # vs, rest))
               else if d = CHR '']'' then Some ([v], r')
               else None))"
| "parse_members 0 s = None"
| "parse_members (Suc n) s =
     (case skip_ws s of
        [] \<Rightarrow> None
      | q # r \<Rightarrow>
          if q \<noteq> CHR 0x22 then None
          else
            (case parse_chars r of
               None \<Rightarrow> None
             | Some (k, r1) \<Rightarrow>
                 (case skip_ws r1 of
                    [] \<Rightarrow> None
                  | col # r2 \<Rightarrow>
                      if col \<noteq> CHR '':'' then None
                      else
                        (case parse_value n r2 of
                           None \<Rightarrow> None
                         | Some (v, r3) \<Rightarrow>
                             (case skip_ws r3 of
                                [] \<Rightarrow> None
                              | d # r4 \<Rightarrow>
                                  if d = CHR '','' then
                                    (case parse_members n r4 of
                                       None \<Rightarrow> None
                                     | Some (kvs, rest) \<Rightarrow> Some ((k, v) # kvs, rest))
                                  else if d = CHR ''}'' then Some ([(k, v)], r4)
                                  else None)))))"

definition JSON_parse :: "string \<Rightarrow> json option" where
  \<comment> \<open>\<open>None\<close> is a thrown \<^verbatim>\<open>SyntaxError\<close>; the nesting depth of a text is
      below its length, which bounds the recursion\<close>
  "JSON_parse s =
     (case parse_value (Suc (length s)) s of
        None \<Rightarrow> None
      | Some (v, rest) \<Rightarrow> if skip_ws rest = [] then Some v else None)"

text \<open>
  The values that \<^verbatim>\<open>JSON.stringify\<close> and \<^verbatim>\<open>JSON.parse\<close> carry unchanged.  A
  number is an integer that a double holds exactly.  The properties of an object are
  distinct and in the order in which an object enumerates them: the array indices in
  ascending order, then the other names.
\<close>

fun canonical_keys :: "string list \<Rightarrow> bool" where
  "canonical_keys [] = True"
| "canonical_keys (k # ks) =
     (k \<notin> set ks \<and> canonical_keys ks
      \<and> (if is_array_index k
         then list_all (\<lambda>k'. \<not> is_array_index k' \<or> digits_value 10 k < digits_value 10 k') ks
         else list_all (\<lambda>k'. \<not> is_array_index k') ks))"

definition safe_integer :: "int \<Rightarrow> bool" where
  "safe_integer n = (- 9007199254740991 \<le> n \<and> n \<le> 9007199254740991)"

fun serializable :: "json \<Rightarrow> bool" where
  "serializable JNull = True"
| "serializable (JBool b) = True"
| "serializable (JNum n) = safe_integer n"
| "serializable (JStr s) = True"
| "serializable (JArr xs) = list_all serializable xs"
| "serializable (JObj kvs) =
     (canonical_keys (map fst kvs) \<and> list_all serializable (map snd kvs))"

text \<open>Auxiliary notions for reading a JSON text: what may follow a value, what a value
  starts with, and the text of one property.\<close>

definition ends_value :: "string \<Rightarrow> bool" where
  "ends_value rest =
     (case rest of [] \<Rightarrow> True | c # _ \<Rightarrow> c = CHR '','' \<or> c = CHR '']'' \<or> c = CHR ''}'')"

definition value_start :: "char \<Rightarrow> bool" where
  "value_start c = (c \<in> set [CHR ''n'', CHR ''t'', CHR ''f'', CHR ''-'', CHR 0x22, CHR ''['', CHR ''{'']
                    \<or> is_digit_in 10 c)"

definition member_text :: "string \<times> json \<Rightarrow> string" where
  "member_text kv = quote (fst kv) @ '':'' @ JSON_stringify (snd kv)"

section \<open>Errors\<close>

text \<open>
  The error classes of the application, with the two built-in errors that the modelled
  code can raise: \<open>Error\<close> is a plain \<^verbatim>\<open>Error(message)\<close> thrown by a work unit.
\<close>

datatype js_error =
    TaskNotFoundError string
  | InvalidTaskStateError string string
  | ValidationError string string
  | DatabaseOperationError string string
  | WebhookDeliveryError string string
  | TaskExecutionError string string
  | ConcurrencyLimitError int int
  | Error string
  | TypeError string
  | SyntaxError string

fun error_message :: "js_error \<Rightarrow> string" where
  "error_message (TaskNotFoundError taskId) =
     ''Task with ID '' @ [CHR 0x27] @ taskId @ [CHR 0x27] @ '' does not exist''"
| "error_message (InvalidTaskStateError currentState attemptedAction) =
     ''Cannot '' @ attemptedAction @ '' task in '' @ [CHR 0x27] @ currentState @ [CHR 0x27] @ '' state''"
| "error_message (ValidationError field msg) =
     ''Validation failed for '' @ [CHR 0x27] @ field @ [CHR 0x27] @ '': '' @ msg"
| "error_message (DatabaseOperationError operation details) =
     ''Database operation '' @ [CHR 0x27] @ operation @ [CHR 0x27] @ '' failed: '' @ details"
| "error_message (WebhookDeliveryError url reason) =
     ''Webhook delivery to '' @ [CHR 0x27] @ url @ [CHR 0x27] @ '' failed: '' @ reason"
| "error_message (TaskExecutionError taskId reason) =
     ''Task execution failed for '' @ [CHR 0x27] @ taskId @ [CHR 0x27] @ '': '' @ reason"
| "error_message (ConcurrencyLimitError currentCount limit) =
     ''Maximum concurrent tasks limit reached ('' @ int_str currentCount @ ''/'' @ int_str limit @ '')''"
| "error_message (Error msg) = msg"
| "error_message (TypeError msg) = msg"
| "error_message (SyntaxError msg) = msg"

fun statusCode :: "js_error \<Rightarrow> nat" where
  \<comment> \<open>the status the global error handler answers with\<close>
  "statusCode (TaskNotFoundError _) = 404"
| "statusCode (InvalidTaskStateError _ _) = 400"
| "statusCode (ValidationError _ _) = 400"
| "statusCode (DatabaseOperationError _ _) = 500"
| "statusCode (WebhookDeliveryError _ _) = 502"
| "statusCode (TaskExecutionError _ _) = 500"
| "statusCode (ConcurrencyLimitError _ _) = 429"
| "statusCode (Error _) = 500"
| "statusCode (TypeError _) = 500"
| "statusCode (SyntaxError _) = 500"

fun errorCode :: "js_error \<Rightarrow> string" where
  "errorCode (TaskNotFoundError _) = ''TASK_NOT_FOUND''"
| "errorCode (InvalidTaskStateError _ _) = ''INVALID_STATE_TRANSITION''"
| "errorCode (ValidationError _ _) = ''VALIDATION_ERROR''"
| "errorCode (DatabaseOperationError _ _) = ''DB_OPERATION_FAILED''"
| "errorCode (WebhookDeliveryError _ _) = ''WEBHOOK_DELIVERY_FAILED''"
| "errorCode (TaskExecutionError _ _) = ''EXECUTION_FAILED''"
| "errorCode (ConcurrencyLimitError _ _) = ''CONCURRENCY_LIMIT_EXCEEDED''"
| "errorCode (Error _) = ''INTERNAL_SERVER_ERROR''"
| "errorCode (TypeError _) = ''INTERNAL_SERVER_ERROR''"
| "errorCode (SyntaxError _) = ''INTERNAL_SERVER_ERROR''"

section \<open>The task store (TaskRepository)\<close>

text \<open>
  A row of table \<^verbatim>\<open>task_queue\<close>, with the columns the repository writes or
  queries.  The same shape is the task object that \<^verbatim>\<open>_formatTaskData\<close>
  returns: there \<open>payload_data\<close> is the parsed payload, in the row it is the string the
  driver hands back.  Column \<^verbatim>\<open>modified_at\<close> is kept by the database alone and is
  left out.
\<close>

record task =
  task_id :: string
  task_label :: string
  payload_data :: json
  urgency_level :: string
  schedule_pattern :: "string option"
  is_recurring :: bool
  next_execution_at :: "jsdate option"
  execution_state :: string
  execution_attempts :: int
  execution_duration_ms :: "int option"
  failure_reason :: "string option"
  last_executed_at :: "jsdate option"
  completed_at :: "int option"
  spawned_at :: int

record history_entry =
  h_task_id :: string
  execution_status :: string
  started_at :: int
  finished_at :: int
  duration_ms :: int
  error_message_col :: "string option"

record database =
  task_queue :: "task list"
  execution_history :: "history_entry list"

text \<open>The object \<^verbatim>\<open>taskData\<close> that the service hands to \<^verbatim>\<open>createTask\<close>.\<close>

record task_data =
  td_task_id :: string
  td_task_label :: string
  td_payload_data :: json
  td_urgency_level :: string
  td_schedule_pattern :: "string option"
  td_is_recurring :: bool
  td_next_execution_at :: "jsdate option"

text \<open>The object \<^verbatim>\<open>additionalData\<close> of \<^verbatim>\<open>updateTaskState\<close>; an absent
  property is \<open>None\<close>.\<close>

record additional_data =
  ad_execution_attempts :: "int option"
  ad_execution_duration_ms :: "int option"
  ad_failure_reason :: "string option"
  ad_last_executed_at :: "jsdate option"
  ad_next_execution_at :: "jsdate option"

definition no_data :: additional_data where
  "no_data = \<lparr> ad_execution_attempts = None, ad_execution_duration_ms = None,
               ad_failure_reason = None, ad_last_executed_at = None,
               ad_next_execution_at = None \<rparr>"

definition syntax_error_text :: string where
  \<comment> \<open>the message of the \<^verbatim>\<open>SyntaxError\<close> of \<^verbatim>\<open>JSON.parse\<close>; its wording is the
      engine's\<close>
  "syntax_error_text = ''Unexpected token in JSON''"

definition formatTaskData :: "task \<Rightarrow> js_error + task" where
  "formatTaskData row =
     (case payload_data row of
        JStr s \<Rightarrow>
          (case JSON_parse s of
             None \<Rightarrow> Inl (SyntaxError syntax_error_text)
           | Some v \<Rightarrow> Inr (row\<lparr>payload_data := v\<rparr>))
      | _ \<Rightarrow> Inr row)"

fun format_rows :: "task list \<Rightarrow> js_error + task list" where
  \<comment> \<open>\<^verbatim>\<open>results.map(row => this._formatTaskData(row))\<close>: the first failure is thrown\<close>
  "format_rows [] = Inr []"
| "format_rows (row # rows) =
     (case formatTaskData row of
        Inl e \<Rightarrow> Inl e
      | Inr t \<Rightarrow> (case format_rows rows of Inl e \<Rightarrow> Inl e | Inr ts \<Rightarrow> Inr (t # ts)))"

definition findTaskById :: "database \<Rightarrow> string \<Rightarrow> js_error + task option" where
  "findTaskById db taskId =
     (case filter (\<lambda>row. task_id row = taskId) (task_queue db) of
        [] \<Rightarrow> Inr None
      | row # _ \<Rightarrow>
          (case formatTaskData row of
             Inl e \<Rightarrow> Inl (DatabaseOperationError ''findTaskById'' (error_message e))
           | Inr t \<Rightarrow> Inr (Some t)))"

definition new_row :: "int \<Rightarrow> task_data \<Rightarrow> task" where
  \<comment> \<open>Modelled from the spec: the table definition is not among the sources; a task is
      created in state \<open>queued\<close> with no attempts, and the columns that the
      \<^verbatim>\<open>INSERT\<close> does not name are null.  \<open>dbNow\<close> is the database clock.\<close>
  "new_row dbNow taskData =
     \<lparr> task_id = td_task_id taskData,
       task_label = td_task_label taskData,
       payload_data = JStr (JSON_stringify (td_payload_data taskData)),
       urgency_level = td_urgency_level taskData,
       schedule_pattern =
         (case td_schedule_pattern taskData of
            None \<Rightarrow> None | Some sp \<Rightarrow> if sp = [] then None else Some sp),
       is_recurring = td_is_recurring taskData,
       next_execution_at = td_next_execution_at taskData,
       execution_state = ''queued'',
       execution_attempts = 0,
       execution_duration_ms = None,
       failure_reason = None,
       last_executed_at = None,
       completed_at = None,
       spawned_at = dbNow \<rparr>"

definition TaskRepository_createTask ::
  "int \<Rightarrow> database \<Rightarrow> task_data \<Rightarrow> (js_error + task option) \<times> database" where
  "TaskRepository_createTask dbNow db taskData =
     (let db' = db\<lparr>task_queue := task_queue db @ [new_row dbNow taskData]\<rparr> in
      case findTaskById db' (td_task_id taskData) of
        Inl e \<Rightarrow> (Inl (DatabaseOperationError ''createTask'' (error_message e)), db')
      | Inr t \<Rightarrow> (Inr t, db'))"

definition apply_update :: "int \<Rightarrow> string \<Rightarrow> additional_data \<Rightarrow> task \<Rightarrow> task" where
  \<comment> \<open>the \<^verbatim>\<open>SET\<close> list that \<^verbatim>\<open>updateTaskState\<close> builds, applied to one row;
      \<open>dbNow\<close> is \<^verbatim>\<open>NOW()\<close>\<close>
  "apply_update dbNow newState additionalData row =
     (let r1 = row\<lparr>execution_state := newState\<rparr>;
          r2 = (case ad_execution_attempts additionalData of
                  None \<Rightarrow> r1 | Some n \<Rightarrow> r1\<lparr>execution_attempts := n\<rparr>);
          r3 = (case ad_execution_duration_ms additionalData of
                  None \<Rightarrow> r2 | Some d \<Rightarrow> r2\<lparr>execution_duration_ms := Some d\<rparr>);
          r4 = (case ad_failure_reason additionalData of
                  None \<Rightarrow> r3
                | Some m \<Rightarrow> if m = [] then r3 else r3\<lparr>failure_reason := Some m\<rparr>);
          r5 = (if newState = ''completed'' then r4\<lparr>completed_at := Some dbNow\<rparr> else r4);
          r6 = (case ad_last_executed_at additionalData of
                  None \<Rightarrow> r5 | Some d \<Rightarrow> r5\<lparr>last_executed_at := Some d\<rparr>)
      in r6)"

definition sql_update ::
  "int \<Rightarrow> string \<Rightarrow> string \<Rightarrow> additional_data \<Rightarrow> database \<Rightarrow> database" where
  \<comment> \<open>the statement \<^verbatim>\<open>UPDATE task_queue SET ... WHERE task_id = ?\<close>\<close>
  "sql_update dbNow taskId newState additionalData db =
     db\<lparr>task_queue :=
          map (\<lambda>row. if task_id row = taskId
                      then apply_update dbNow newState additionalData row else row)
              (task_queue db)\<rparr>"

definition updateTaskState ::
  "int \<Rightarrow> database \<Rightarrow> string \<Rightarrow> string \<Rightarrow> additional_data
     \<Rightarrow> (js_error + task option) \<times> database" where
  "updateTaskState dbNow db taskId newState additionalData =
     (let db' = sql_update dbNow taskId newState additionalData db in
      case findTaskById db' taskId of
        Inl e \<Rightarrow> (Inl (DatabaseOperationError ''updateTaskState'' (error_message e)), db')
      | Inr t \<Rightarrow> (Inr t, db'))"

definition is_due :: "int \<Rightarrow> task \<Rightarrow> bool" where
  \<comment> \<open>the \<^verbatim>\<open>WHERE\<close> clause of \<^verbatim>\<open>findScheduledTasksReady\<close>\<close>
  "is_due dbNow row =
     (is_recurring row
      \<and> (case next_execution_at row of Some (Date t) \<Rightarrow> t \<le> dbNow | _ \<Rightarrow> False)
      \<and> execution_state row \<in> set [''queued'', ''completed''])"

definition findScheduledTasksReady :: "int \<Rightarrow> database \<Rightarrow> js_error + task list" where
  "findScheduledTasksReady dbNow db =
     (case format_rows (filter (is_due dbNow) (task_queue db)) of
        Inl e \<Rightarrow> Inl (DatabaseOperationError ''findScheduledTasksReady'' (error_message e))
      | Inr ts \<Rightarrow> Inr ts)"

definition logExecution ::
  "database \<Rightarrow> string \<Rightarrow> string \<Rightarrow> int \<Rightarrow> int \<Rightarrow> string option \<Rightarrow> database" where
  "logExecution db taskId status startTime endTime errorMessage =
     db\<lparr>execution_history := execution_history db @
          [\<lparr> h_task_id = taskId, execution_status = status, started_at = startTime,
             finished_at = endTime, duration_ms = endTime - startTime,
             error_message_col = errorMessage \<rparr>]\<rparr>"

definition deleteTask :: "database \<Rightarrow> string \<Rightarrow> bool \<times> database" where
  "deleteTask db taskId =
     (filter (\<lambda>row. task_id row = taskId) (task_queue db) \<noteq> [],
      db\<lparr>task_queue := filter (\<lambda>row. task_id row \<noteq> taskId) (task_queue db)\<rparr>)"

text \<open>The filters of \<^verbatim>\<open>findAllTasks\<close>; \<open>limit\<close> is a query-string value.\<close>

record task_filters =
  f_execution_state :: "string option"
  f_urgency_level :: "string option"
  f_is_recurring :: "bool option"
  f_limit :: "string option"

definition matches_filters :: "task_filters \<Rightarrow> task \<Rightarrow> bool" where
  "matches_filters filters row =
     ((case f_execution_state filters of
         None \<Rightarrow> True | Some st \<Rightarrow> if st = [] then True else execution_state row = st)
      \<and> (case f_urgency_level filters of
            None \<Rightarrow> True | Some u \<Rightarrow> if u = [] then True else urgency_level row = u)
      \<and> (case f_is_recurring filters of None \<Rightarrow> True | Some b \<Rightarrow> is_recurring row = b))"

definition sql_error_text :: string where
  \<comment> \<open>the message of a statement the database refuses; its wording is the database's\<close>
  "sql_error_text = ''You have an error in your SQL syntax''"

definition findAllTasks :: "database \<Rightarrow> task_filters \<Rightarrow> js_error + task list" where
  \<comment> \<open>newest first; rows of one instant stay in table order\<close>
  "findAllTasks db filters =
     (let rows = sort_key (\<lambda>row. - spawned_at row) (filter (matches_filters filters) (task_queue db));
          limited =
            (case f_limit filters of
               None \<Rightarrow> Some rows
             | Some l \<Rightarrow>
                 if l = [] then Some rows
                 else (case parseInt l of
                         None \<Rightarrow> None
                       | Some n \<Rightarrow> if n < 0 then None else Some (take (nat n) rows)))
      in case limited of
           None \<Rightarrow> Inl (DatabaseOperationError ''findAllTasks'' sql_error_text)
         | Some rs \<Rightarrow>
             (case format_rows rs of
                Inl e \<Rightarrow> Inl (DatabaseOperationError ''findAllTasks'' (error_message e))
              | Inr ts \<Rightarrow> Inr ts))"

section \<open>The task service (TaskService)\<close>

text \<open>The body of a creation request; an absent property is \<open>None\<close>.\<close>

record create_request =
  taskName :: "string option"
  payload :: "json option"
  priority :: "string option"
  schedulePattern :: "string option"

text \<open>The task as \<^verbatim>\<open>_formatTaskResponse\<close> presents it.\<close>

record task_response =
  id' :: string
  taskName' :: string
  payload' :: json
  priority' :: string
  status' :: string
  isRecurring' :: bool
  schedulePattern' :: "string option"
  nextExecutionAt' :: "jsdate option"
  executionAttempts' :: int
  executionDuration' :: "int option"
  createdAt' :: int
  completedAt' :: "int option"
  failureReason' :: "string option"

record service_result =
  success :: bool
  message :: string
  data :: task_response

definition formatTaskResponse :: "task \<Rightarrow> task_response" where
  "formatTaskResponse t =
     \<lparr> id' = task_id t, taskName' = task_label t, payload' = payload_data t,
       priority' = urgency_level t, status' = execution_state t,
       isRecurring' = is_recurring t, schedulePattern' = schedule_pattern t,
       nextExecutionAt' = next_execution_at t, executionAttempts' = execution_attempts t,
       executionDuration' = execution_duration_ms t, createdAt' = spawned_at t,
       completedAt' = completed_at t, failureReason' = failure_reason t \<rparr>"

definition isValidCronPattern :: "string \<Rightarrow> bool" where
  "isValidCronPattern pattern = (length (split_on CHR '' '' (trim pattern)) = 5)"

definition validateTaskPayload :: "create_request \<Rightarrow> js_error + unit" where
  "validateTaskPayload p =
     (if (case taskName p of None \<Rightarrow> True | Some n \<Rightarrow> n = [] \<or> length (trim n) = 0)
        then Inl (ValidationError ''taskName'' ''Task name is required'')
      else if (case payload p of None \<Rightarrow> True | Some v \<Rightarrow> \<not> truthy v)
        then Inl (ValidationError ''payload'' ''Payload data is required'')
      else if (case priority p of
                 None \<Rightarrow> True
               | Some pr \<Rightarrow> toLowerCase pr \<notin> set [''low'', ''medium'', ''high''])
        then Inl (ValidationError ''priority'' ''Must be one of: low, medium, high'')
      else if (case schedulePattern p of
                 None \<Rightarrow> False
               | Some sp \<Rightarrow> sp \<noteq> [] \<and> \<not> isValidCronPattern sp)
        then Inl (ValidationError ''schedulePattern'' ''Invalid cron pattern'')
      else Inr ())"

definition calculateNextExecution :: "time_zone \<Rightarrow> int \<Rightarrow> string \<Rightarrow> jsdate" where
  \<comment> \<open>\<open>tz\<close> is the time zone of the process, \<open>now\<close> the instant of
      \<^verbatim>\<open>new Date()\<close>; \<^verbatim>\<open>split\<close> never returns an empty array\<close>
  "calculateNextExecution tz now cronPattern =
     (if startsWith ''*/'' cronPattern then
        (case split_on CHR '' '' cronPattern of
           [] \<Rightarrow> InvalidDate
         | part # _ \<Rightarrow> setMinutes_plus tz (Date now) (parseInt (replace_first ''*/'' [] part)))
      else setHours_plus tz (Date now) 1)"

definition TaskService_createTask ::
  "string \<Rightarrow> time_zone \<Rightarrow> int \<Rightarrow> int \<Rightarrow> database \<Rightarrow> create_request
     \<Rightarrow> (js_error + service_result) \<times> database" where
  \<comment> \<open>\<open>newId\<close> is the value of \<^verbatim>\<open>uuidv4()\<close>, \<open>tz\<close> the time zone of the process,
      \<open>now\<close> the instant of
      \<^verbatim>\<open>new Date()\<close>, \<open>dbNow\<close> the database clock at the insertion\<close>
  "TaskService_createTask newId tz now dbNow db taskPayload =
     (case validateTaskPayload taskPayload of
        Inl e \<Rightarrow> (Inl e, db)
      | Inr _ \<Rightarrow>
          (case (taskName taskPayload, payload taskPayload, priority taskPayload) of
             (Some name, Some pl, Some pr) \<Rightarrow>
               (let scheduled = (case schedulePattern taskPayload of
                                   None \<Rightarrow> False | Some sp \<Rightarrow> sp \<noteq> []);
                    taskData =
                      \<lparr> td_task_id = newId,
                        td_task_label = name,
                        td_payload_data = pl,
                        td_urgency_level = toLowerCase pr,
                        td_schedule_pattern =
                          (if scheduled then schedulePattern taskPayload else None),
                        td_is_recurring = scheduled,
                        td_next_execution_at =
                          (case schedulePattern taskPayload of
                             None \<Rightarrow> None
                           | Some sp \<Rightarrow>
                               if sp = [] then None
                               else Some (calculateNextExecution tz now sp)) \<rparr>
                in case TaskRepository_createTask dbNow db taskData of
                     (Inl e, db') \<Rightarrow> (Inl e, db')
                   | (Inr None, db') \<Rightarrow>
                       (Inl (TypeError ''Cannot read properties of null''), db')
                   | (Inr (Some createdTask), db') \<Rightarrow>
                       (Inr \<lparr> success = True, message = ''Task created successfully'',
                              data = formatTaskResponse createdTask \<rparr>, db'))
           | _ \<Rightarrow> (Inl (TypeError ''Cannot read properties of undefined''), db)))"

text \<open>
  The readings of the clock that one call of \<^verbatim>\<open>executeTask\<close> takes, in the order
  of the source: \<^verbatim>\<open>Date.now()\<close> before the \<^verbatim>\<open>try\<close>, \<^verbatim>\<open>new Date()\<close> for
  \<open>last_executed_at\<close>, \<^verbatim>\<open>Date.now()\<close> after the work unit, \<^verbatim>\<open>NOW()\<close> of the
  completing update, \<^verbatim>\<open>new Date()\<close> of \<^verbatim>\<open>_calculateNextExecution\<close>, and
  \<^verbatim>\<open>Date.now()\<close> in the \<^verbatim>\<open>catch\<close> block; with them, the time zone of the
  process.
\<close>

record clock_reads =
  startTime :: int
  executedAt :: int
  endTime :: int
  completedNow :: int
  scheduleNow :: int
  failedAt :: int
  timeZone :: time_zone

record webhook_result =
  delivered :: bool
  response_status :: "nat option"


definition simulateTaskExecution :: "task \<Rightarrow> string + bool" where
  \<comment> \<open>the work unit of the source: it waits and returns \<^verbatim>\<open>true\<close>.  A work unit in
      general either returns or throws an \<^verbatim>\<open>Error\<close> with a message (\<open>Inl\<close>).\<close>
  "simulateTaskExecution t = Inr True"


definition scheduleNextExecution ::
  "time_zone \<Rightarrow> int \<Rightarrow> database \<Rightarrow> string \<Rightarrow> string \<Rightarrow> (js_error + unit) \<times> database" where
  "scheduleNextExecution tz now db taskId cronPattern =
     (let nextExecution = calculateNextExecution tz now cronPattern in
      case updateTaskState now db taskId ''queued''
             (no_data\<lparr>ad_next_execution_at := Some nextExecution\<rparr>) of
        (Inl e, db') \<Rightarrow> (Inl e, db')
      | (Inr _, db') \<Rightarrow> (Inr (), db'))"

definition executeTask_try ::
  "(task \<Rightarrow> string + bool) \<Rightarrow> (task option \<Rightarrow> webhook_result) \<Rightarrow> clock_reads
     \<Rightarrow> database \<Rightarrow> task \<Rightarrow> string \<Rightarrow> (js_error + service_result) \<times> database" where
  \<comment> \<open>the \<^verbatim>\<open>try\<close> block of \<^verbatim>\<open>executeTask\<close>; \<open>Inl\<close> is the error it throws.
      The result of the webhook delivery is not looked at.\<close>
  "executeTask_try work deliverWebhook clk db t taskId =
     (case updateTaskState (executedAt clk) db taskId ''processing''
             (no_data\<lparr>ad_execution_attempts := Some (execution_attempts t + 1),
                       ad_last_executed_at := Some (Date (executedAt clk))\<rparr>) of
        (Inl e, db1) \<Rightarrow> (Inl e, db1)
      | (Inr _, db1) \<Rightarrow>
          (case work t of
             Inl msg \<Rightarrow> (Inl (Error msg), db1)
           | Inr _ \<Rightarrow>
               (case updateTaskState (completedNow clk) db1 taskId ''completed''
                       (no_data\<lparr>ad_execution_duration_ms := Some (endTime clk - startTime clk)\<rparr>) of
                  (Inl e, db2) \<Rightarrow> (Inl e, db2)
                | (Inr completedTask, db2) \<Rightarrow>
                    (let db3 = logExecution db2 taskId ''success'' (startTime clk) (endTime clk) None;
                         hook = deliverWebhook completedTask;
                         (scheduled, db4) =
                           (case schedule_pattern t of
                              None \<Rightarrow> (Inr (), db3)
                            | Some sp \<Rightarrow>
                                if is_recurring t \<and> sp \<noteq> []
                                then scheduleNextExecution (timeZone clk) (scheduleNow clk) db3 taskId sp
                                else (Inr (), db3))
                     in case scheduled of
                          Inl e \<Rightarrow> (Inl e, db4)
                        | Inr _ \<Rightarrow>
                            (case completedTask of
                               None \<Rightarrow> (Inl (TypeError ''Cannot read properties of null''), db4)
                             | Some ct \<Rightarrow>
                                 (Inr \<lparr> success = True, message = ''Task executed successfully'',
                                        data = formatTaskResponse ct \<rparr>, db4))))))"

definition executeTask_catch ::
  "clock_reads \<Rightarrow> database \<Rightarrow> string \<Rightarrow> js_error \<Rightarrow> (js_error + service_result) \<times> database" where
  \<comment> \<open>the \<^verbatim>\<open>catch\<close> block of \<^verbatim>\<open>executeTask\<close>\<close>
  "executeTask_catch clk db taskId err =
     (let db1 = logExecution db taskId ''failure'' (startTime clk) (failedAt clk)
                  (Some (error_message err)) in
      case updateTaskState (failedAt clk) db1 taskId ''failed''
             (no_data\<lparr>ad_failure_reason := Some (error_message err),
                       ad_execution_duration_ms := Some (failedAt clk - startTime clk)\<rparr>) of
        (Inl e, db2) \<Rightarrow> (Inl e, db2)
      | (Inr _, db2) \<Rightarrow> (Inl (TaskExecutionError taskId (error_message err)), db2))"

definition TaskService_executeTask ::
  "(task \<Rightarrow> string + bool) \<Rightarrow> (task option \<Rightarrow> webhook_result) \<Rightarrow> clock_reads
     \<Rightarrow> database \<Rightarrow> string \<Rightarrow> (js_error + service_result) \<times> database" where
  "TaskService_executeTask work deliverWebhook clk db taskId =
     (case findTaskById db taskId of
        Inl e \<Rightarrow> (Inl e, db)
      | Inr None \<Rightarrow> (Inl (TaskNotFoundError taskId), db)
      | Inr (Some t) \<Rightarrow>
          if execution_state t = ''processing''
          then (Inl (InvalidTaskStateError (execution_state t) ''execute''), db)
          else (case executeTask_try work deliverWebhook clk db t taskId of
                  (Inr result, db') \<Rightarrow> (Inr result, db')
                | (Inl err, db') \<Rightarrow> executeTask_catch clk db' taskId err))"

section \<open>The request validator (middleware) and the controller\<close>

definition cron_number :: "nat \<Rightarrow> nat \<Rightarrow> string \<Rightarrow> bool" where
  \<comment> \<open>one or two digits, no leading zero, within the bounds: the numeric alternatives of
      one field of the validator's regular expression\<close>
  "cron_number lo hi s =
     (s \<noteq> [] \<and> length s \<le> 2 \<and> list_all (is_digit_in 10) s
      \<and> (length s = 1 \<or> hd s \<noteq> CHR ''0'')
      \<and> lo \<le> digits_value 10 s \<and> digits_value 10 s \<le> hi)"

definition cron_field :: "nat \<Rightarrow> nat \<Rightarrow> string \<Rightarrow> bool" where
  "cron_field lo hi s =
     (s = ''*'' \<or> cron_number lo hi s \<or> (startsWith ''*/'' s \<and> cron_number lo hi (drop 2 s)))"

definition isValidCron :: "string \<Rightarrow> bool" where
  \<comment> \<open>the regular expression \<^verbatim>\<open>isValidCron\<close>: five fields separated by single spaces\<close>
  "isValidCron s =
     (case split_on CHR '' '' s of
        [mi, ho, da, mo, wd] \<Rightarrow>
          cron_field 0 59 mi \<and> cron_field 0 23 ho \<and> cron_field 1 31 da
          \<and> cron_field 1 12 mo \<and> cron_field 0 6 wd
      | _ \<Rightarrow> False)"

definition validateCreateTaskRequest :: "create_request \<Rightarrow> js_error + unit" where
  \<comment> \<open>\<^verbatim>\<open>RequestValidator.validateCreateTaskRequest\<close>; \<open>Inr ()\<close> is the call of
      \<^verbatim>\<open>next()\<close>\<close>
  "validateCreateTaskRequest body =
     (if (case taskName body of None \<Rightarrow> True | Some n \<Rightarrow> n = [] \<or> length (trim n) = 0)
        then Inl (ValidationError ''taskName'' ''Must be a non-empty string'')
      else if (case taskName body of None \<Rightarrow> False | Some n \<Rightarrow> 255 < length n)
        then Inl (ValidationError ''taskName'' ''Must be 255 characters or less'')
      else if (case payload body of None \<Rightarrow> True | Some v \<Rightarrow> \<not> truthy v)
        then Inl (ValidationError ''payload'' ''Payload is required'')
      else if (case payload body of Some (JArr _) \<Rightarrow> False | Some (JObj _) \<Rightarrow> False | _ \<Rightarrow> True)
        then Inl (ValidationError ''payload'' ''Payload must be a JSON object'')
      else if (case priority body of
                 None \<Rightarrow> True
               | Some pr \<Rightarrow> pr = [] \<or> toLowerCase pr \<notin> set [''low'', ''medium'', ''high''])
        then Inl (ValidationError ''priority'' ''Must be one of: low, medium, high'')
      else if (case schedulePattern body of
                 None \<Rightarrow> False
               | Some sp \<Rightarrow> sp \<noteq> [] \<and> \<not> isValidCron sp)
        then Inl (ValidationError ''schedulePattern''
                    ''Invalid cron pattern (format: minute hour day month weekday)'')
      else Inr ())"

record http_response =
  status :: nat
  body :: "js_error + service_result"

definition TaskController_createTask ::
  "string \<Rightarrow> time_zone \<Rightarrow> int \<Rightarrow> int \<Rightarrow> database \<Rightarrow> create_request \<Rightarrow> http_response \<times> database" where
  \<comment> \<open>an error goes to the global error handler, which answers with its status code\<close>
  "TaskController_createTask newId tz now dbNow db reqBody =
     (case TaskService_createTask newId tz now dbNow db reqBody of
        (Inr result, db') \<Rightarrow> (\<lparr> status = 201, body = Inr result \<rparr>, db')
      | (Inl e, db') \<Rightarrow> (\<lparr> status = statusCode e, body = Inl e \<rparr>, db'))"

definition TaskController_executeTask ::
  "(task \<Rightarrow> string + bool) \<Rightarrow> (task option \<Rightarrow> webhook_result) \<Rightarrow> clock_reads
     \<Rightarrow> database \<Rightarrow> string \<Rightarrow> http_response \<times> database" where
  "TaskController_executeTask work deliverWebhook clk db reqId =
     (case TaskService_executeTask work deliverWebhook clk db reqId of
        (Inr result, db') \<Rightarrow> (\<lparr> status = 200, body = Inr result \<rparr>, db')
      | (Inl e, db') \<Rightarrow> (\<lparr> status = statusCode e, body = Inl e \<rparr>, db'))"

text \<open>
  The routes \<^verbatim>\<open>POST /tasks\<close> and \<^verbatim>\<open>POST /run-job/:id\<close> call the controller and
  nothing else: no middleware is registered on them.
\<close>

definition POST_tasks ::
  "string \<Rightarrow> time_zone \<Rightarrow> int \<Rightarrow> int \<Rightarrow> database \<Rightarrow> create_request \<Rightarrow> http_response \<times> database" where
  "POST_tasks newId tz now dbNow db reqBody = TaskController_createTask newId tz now dbNow db reqBody"

definition POST_run_job ::
  "(task \<Rightarrow> string + bool) \<Rightarrow> (task option \<Rightarrow> webhook_result) \<Rightarrow> clock_reads
     \<Rightarrow> database \<Rightarrow> string \<Rightarrow> http_response \<times> database" where
  "POST_run_job work deliverWebhook clk db reqId =
     TaskController_executeTask work deliverWebhook clk db reqId"

section \<open>The scheduler (SchedulerService)\<close>

record scheduler =
  activeTasksCount :: int
  maxConcurrentTasks :: int
  taskQueue :: "task list"
  isRunning :: bool

definition new_scheduler :: "string option \<Rightarrow> scheduler" where
  \<comment> \<open>the constructor; the argument is the environment variable
      \<^verbatim>\<open>MAX_CONCURRENT_TASKS\<close>\<close>
  "new_scheduler env =
     \<lparr> activeTasksCount = 0,
       maxConcurrentTasks =
         (case env of
            None \<Rightarrow> 5
          | Some v \<Rightarrow> (case parseInt v of None \<Rightarrow> 5 | Some n \<Rightarrow> if n = 0 then 5 else n)),
       taskQueue = [],
       isRunning = False \<rparr>"

text \<open>
  The code between two \<^verbatim>\<open>await\<close>s runs without interruption.  These are the
  uninterrupted pieces that touch the counter and the queue.
\<close>

definition enter :: "scheduler \<Rightarrow> scheduler" where
  \<comment> \<open>\<^verbatim>\<open>_executeTaskAsync\<close> up to its \<^verbatim>\<open>await\<close>\<close>
  "enter sch = sch\<lparr>activeTasksCount := activeTasksCount sch + 1\<rparr>"

definition leave :: "scheduler \<Rightarrow> task option \<times> scheduler" where
  \<comment> \<open>the \<^verbatim>\<open>finally\<close> block of \<^verbatim>\<open>_executeTaskAsync\<close>: the slot is released and
      the head of the queue, if any, is started at once\<close>
  "leave sch =
     (let sch1 = sch\<lparr>activeTasksCount := activeTasksCount sch - 1\<rparr> in
      case taskQueue sch1 of
        [] \<Rightarrow> (None, sch1)
      | nextTask # rest \<Rightarrow> (Some nextTask, enter (sch1\<lparr>taskQueue := rest\<rparr>)))"

definition submit :: "scheduler \<Rightarrow> task \<Rightarrow> bool \<times> scheduler" where
  \<comment> \<open>one round of the loop of \<^verbatim>\<open>_checkAndExecutePendingTasks\<close>; \<open>True\<close> when the
      task is started\<close>
  "submit sch t =
     (if maxConcurrentTasks sch \<le> activeTasksCount sch
      then (False, sch\<lparr>taskQueue := taskQueue sch @ [t]\<rparr>)
      else (True, enter sch))"

definition drain :: "scheduler \<Rightarrow> (task \<times> scheduler) option" where
  \<comment> \<open>one round of the loop of \<^verbatim>\<open>_processTaskQueue\<close>; \<open>None\<close> when the loop ends\<close>
  "drain sch =
     (case taskQueue sch of
        [] \<Rightarrow> None
      | t # rest \<Rightarrow>
          if activeTasksCount sch < maxConcurrentTasks sch
          then Some (t, enter (sch\<lparr>taskQueue := rest\<rparr>))
          else None)"

definition manual_check :: "scheduler \<Rightarrow> js_error + unit" where
  \<comment> \<open>\<^verbatim>\<open>manualExecuteTask\<close> up to its \<^verbatim>\<open>await\<close> of the store\<close>
  "manual_check sch =
     (if maxConcurrentTasks sch \<le> activeTasksCount sch
      then Inl (ConcurrencyLimitError (activeTasksCount sch) (maxConcurrentTasks sch))
      else Inr ())"

text \<open>
  A whole call of \<^verbatim>\<open>_executeTaskAsync\<close> when nothing else runs in between: the
  task is executed, its error (if any) is logged and dropped, the slot is released, and
  the queue is worked off one task after the other.  \<open>clks i\<close> holds the clock readings of
  the \<open>i\<close>-th execution.  A null task makes the logging throw a \<^verbatim>\<open>TypeError\<close>.
\<close>

function executeTaskAsync ::
  "(task \<Rightarrow> string + bool) \<Rightarrow> (task option \<Rightarrow> webhook_result) \<Rightarrow> (nat \<Rightarrow> clock_reads)
     \<Rightarrow> scheduler \<Rightarrow> database \<Rightarrow> task option \<Rightarrow> (js_error + unit) \<times> scheduler \<times> database" where
  "executeTaskAsync work deliverWebhook clks sch db t =
     (let sch1 = enter sch;
          (outcome, db1) =
            (case t of
               None \<Rightarrow> (Inl (TypeError ''Cannot read properties of null''), db)
             | Some tk \<Rightarrow>
                 (Inr (), snd (TaskService_executeTask work deliverWebhook (clks 0) db (task_id tk))));
          sch2 = sch1\<lparr>activeTasksCount := activeTasksCount sch1 - 1\<rparr>
      in case taskQueue sch2 of
           [] \<Rightarrow> (outcome, sch2, db1)
         | nextTask # rest \<Rightarrow>
             (case executeTaskAsync work deliverWebhook (\<lambda>i. clks (Suc i))
                     (sch2\<lparr>taskQueue := rest\<rparr>) db1 (Some nextTask) of
                (Inl e, sch3, db3) \<Rightarrow> (Inl e, sch3, db3)
              | (Inr _, sch3, db3) \<Rightarrow> (outcome, sch3, db3)))"
  by pat_completeness auto
termination
  by (relation "measure (\<lambda>(work, deliverWebhook, clks, sch, db, t). length (taskQueue sch))")
     (auto simp: enter_def)

declare executeTaskAsync.simps [simp del]

definition manualExecuteTask ::
  "(task \<Rightarrow> string + bool) \<Rightarrow> (task option \<Rightarrow> webhook_result) \<Rightarrow> (nat \<Rightarrow> clock_reads)
     \<Rightarrow> scheduler \<Rightarrow> database \<Rightarrow> string \<Rightarrow> (js_error + unit) \<times> scheduler \<times> database" where
  "manualExecuteTask work deliverWebhook clks sch db taskId =
     (case manual_check sch of
        Inl e \<Rightarrow> (Inl e, sch, db)
      | Inr _ \<Rightarrow>
          (case findTaskById db taskId of
             Inl e \<Rightarrow> (Inl e, sch, db)
           | Inr t \<Rightarrow> executeTaskAsync work deliverWebhook clks sch db t))"

text \<open>
  The scheduler under interleaving.  Between the uninterrupted pieces other calls may
  run, so a run of the system is a sequence of events.  Beside the scheduler the state
  counts the executions in flight and the manual calls that have passed the capacity check
  and wait for the store; \<open>started\<close> lists the tasks in the order they were started.
\<close>

record gate =
  sched :: scheduler
  running :: nat
  awaiting_lookup :: nat
  started :: "task list"

datatype event =
    TickSubmit task
  | ProcessQueue
  | Finish
  | ManualCheck
  | ManualResume "task option"

definition initial_gate :: "scheduler \<Rightarrow> gate" where
  "initial_gate sch = \<lparr> sched = sch, running = 0, awaiting_lookup = 0, started = [] \<rparr>"

fun step :: "event \<Rightarrow> gate \<Rightarrow> gate option" where
  \<comment> \<open>\<open>None\<close>: the event cannot happen in this state\<close>
  "step (TickSubmit t) g =
     (case submit (sched g) t of
        (True, sch') \<Rightarrow>
          Some (g\<lparr>sched := sch', running := running g + 1, started := started g @ [t]\<rparr>)
      | (False, sch') \<Rightarrow> Some (g\<lparr>sched := sch'\<rparr>))"
| "step ProcessQueue g =
     (case drain (sched g) of
        None \<Rightarrow> None
      | Some (t, sch') \<Rightarrow>
          Some (g\<lparr>sched := sch', running := running g + 1, started := started g @ [t]\<rparr>))"
| "step Finish g =
     (if running g = 0 then None
      else (case leave (sched g) of
              (None, sch') \<Rightarrow> Some (g\<lparr>sched := sch', running := running g - 1\<rparr>)
            | (Some t, sch') \<Rightarrow> Some (g\<lparr>sched := sch', started := started g @ [t]\<rparr>)))"
| "step ManualCheck g =
     (case manual_check (sched g) of
        Inl e \<Rightarrow> Some g
      | Inr _ \<Rightarrow> Some (g\<lparr>awaiting_lookup := awaiting_lookup g + 1\<rparr>))"
| "step (ManualResume found) g =
     (if awaiting_lookup g = 0 then None
      else (case found of
              Some t \<Rightarrow>
                Some (g\<lparr>sched := enter (sched g), running := running g + 1,
                        awaiting_lookup := awaiting_lookup g - 1, started := started g @ [t]\<rparr>)
            | None \<Rightarrow>
                (case leave (enter (sched g)) of
                   (None, sch') \<Rightarrow>
                     Some (g\<lparr>sched := sch', awaiting_lookup := awaiting_lookup g - 1\<rparr>)
                 | (Some t, sch') \<Rightarrow>
                     Some (g\<lparr>sched := sch', running := running g + 1,
                             awaiting_lookup := awaiting_lookup g - 1,
                             started := started g @ [t]\<rparr>))))"

fun run_events :: "event list \<Rightarrow> gate \<Rightarrow> gate option" where
  "run_events [] g = Some g"
| "run_events (e # es) g = (case step e g of None \<Rightarrow> None | Some g' \<Rightarrow> run_events es g')"

fun is_manual :: "event \<Rightarrow> bool" where
  "is_manual ManualCheck = True"
| "is_manual (ManualResume _) = True"
| "is_manual _ = False"

section \<open>Sample data\<close>

definition utc_zone :: time_zone where
  "utc_zone = fixed_zone 0"

definition new_york_autumn_2026 :: time_zone where
  \<comment> \<open>the zone \<^verbatim>\<open>America/New_York\<close> around the end of daylight saving time on
      1 November 2026: at 06:00 UTC the offset goes from four to five hours behind\<close>
  "new_york_autumn_2026 = one_transition_zone 1793512800000 (- 14400000) (- 18000000)"

definition sample_clock :: clock_reads where
  "sample_clock = \<lparr> startTime = 600000, executedAt = 600001, endTime = 603001,
                    completedNow = 603002, scheduleNow = 603003, failedAt = 603004,
                    timeZone = utc_zone \<rparr>"

definition sample_task :: "string \<Rightarrow> task" where
  \<comment> \<open>a one-off task as a creation leaves it\<close>
  "sample_task taskId =
     new_row 0 \<lparr> td_task_id = taskId, td_task_label = ''report'',
                 td_payload_data = JObj [], td_urgency_level = ''low'',
                 td_schedule_pattern = None, td_is_recurring = False,
                 td_next_execution_at = None \<rparr>"

definition recurring_task :: "string \<Rightarrow> task" where
  \<comment> \<open>a task scheduled every five minutes that became due at instant 300000\<close>
  "recurring_task taskId =
     new_row 0 \<lparr> td_task_id = taskId, td_task_label = ''sync'',
                 td_payload_data = JObj [], td_urgency_level = ''low'',
                 td_schedule_pattern = Some ''*/5 * * * *'', td_is_recurring = True,
                 td_next_execution_at = Some (Date 300000) \<rparr>"

definition sample_db :: "task list \<Rightarrow> database" where
  "sample_db rows = \<lparr> task_queue = rows, execution_history = [] \<rparr>"


definition webhook_up :: "task option \<Rightarrow> webhook_result" where
  "webhook_up t = \<lparr> delivered = True, response_status = Some 200 \<rparr>"

definition failing_work :: "string \<Rightarrow> task \<Rightarrow> string + bool" where
  \<comment> \<open>a work unit that throws \<^verbatim>\<open>new Error(msg)\<close>\<close>
  "failing_work msg t = Inl msg"

definition busy_task :: "string \<Rightarrow> task" where
  \<comment> \<open>a task that an execution has marked as processing\<close>
  "busy_task taskId = (sample_task taskId)\<lparr>execution_state := ''processing''\<rparr>"

definition saturated_scheduler :: scheduler where
  \<comment> \<open>the default scheduler with all five slots taken\<close>
  "saturated_scheduler = (new_scheduler None)\<lparr>activeTasksCount := 5\<rparr>"

definition count_and_limit :: "gate option \<Rightarrow> (int \<times> int) option" where
  "count_and_limit r =
     (case r of
        None \<Rightarrow> None
      | Some g \<Rightarrow> Some (activeTasksCount (sched g), maxConcurrentTasks (sched g)))"

definition started_and_queued :: "gate option \<Rightarrow> (task list \<times> task list) option" where
  "started_and_queued r =
     (case r of None \<Rightarrow> None | Some g \<Rightarrow> Some (started g, taskQueue (sched g)))"

definition busy_gate :: gate where
  \<comment> \<open>a scheduler with one slot, taken by a running task\<close>
  "busy_gate =
     \<lparr> sched = (new_scheduler (Some ''1''))\<lparr>activeTasksCount := 1\<rparr>,
       running = 1, awaiting_lookup = 0, started = [sample_task ''x''] \<rparr>"

definition long_request :: create_request where
  \<comment> \<open>a creation request whose name has 256 characters\<close>
  "long_request =
     \<lparr> taskName = Some (replicate 256 (CHR ''a'')), payload = Some (JObj []),
       priority = Some ''low'', schedulePattern = None \<rparr>"

definition five_minute_request :: create_request where
  "five_minute_request =
     \<lparr> taskName = Some ''sync'', payload = Some (JObj []),
       priority = Some ''High'', schedulePattern = Some ''*/5 * * * *'' \<rparr>"

definition sample_payload :: json where
  "sample_payload =
     JObj [(''2'', JArr [JNum (- 7), JNull]), (''to'', JStr [CHR ''a'', CHR 0x22, CHR ''b'']),
           (''ok'', JBool True)]"

definition sample_task_data :: task_data where
  "sample_task_data =
     \<lparr> td_task_id = ''t2'', td_task_label = ''mail'', td_payload_data = sample_payload,
       td_urgency_level = ''high'', td_schedule_pattern = None, td_is_recurring = False,
       td_next_execution_at = None \<rparr>"

definition no_filters :: task_filters where
  "no_filters = \<lparr> f_execution_state = None, f_urgency_level = None, f_is_recurring = None,
                  f_limit = None \<rparr>"

section \<open>The store: facts about updates and lookups\<close>

lemma task_id_apply_update [simp]: "task_id (apply_update n st ad row) = task_id row"
  by (simp add: apply_update_def Let_def split: option.splits)

lemma payload_apply_update [simp]: "payload_data (apply_update n st ad row) = payload_data row"
  by (simp add: apply_update_def Let_def split: option.splits)

lemma apply_update_payload:
  "apply_update n st ad (row\<lparr>payload_data := v\<rparr>) = (apply_update n st ad row)\<lparr>payload_data := v\<rparr>"
  by (simp add: apply_update_def Let_def split: option.splits)

lemma formatTaskData_apply_update:
  "formatTaskData row = Inr t \<Longrightarrow>
   formatTaskData (apply_update n st ad row) = Inr (apply_update n st ad t)"
  by (auto simp: formatTaskData_def apply_update_payload split: json.splits option.splits)

lemma filter_sql_update:
  "filter (\<lambda>row. task_id row = i) (task_queue (sql_update n i st ad db)) =
   map (apply_update n st ad) (filter (\<lambda>row. task_id row = i) (task_queue db))"
  by (induction "task_queue db" arbitrary: db)
     (auto simp: sql_update_def filter_map o_def intro: filter_cong)

lemma findTaskById_sql_update:
  "findTaskById db i = Inr (Some t) \<Longrightarrow>
   findTaskById (sql_update n i st ad db) i = Inr (Some (apply_update n st ad t))"
  by (auto simp: findTaskById_def filter_sql_update formatTaskData_apply_update
           split: list.splits sum.splits)

lemma updateTaskState_found:
  "findTaskById db i = Inr (Some t) \<Longrightarrow>
   updateTaskState n db i st ad = (Inr (Some (apply_update n st ad t)), sql_update n i st ad db)"
  by (simp add: updateTaskState_def findTaskById_sql_update)

lemma findTaskById_logExecution [simp]:
  "findTaskById (logExecution db i st a b m) j = findTaskById db j"
  by (simp add: findTaskById_def logExecution_def)

lemma history_sql_update [simp]:
  "execution_history (sql_update n i st ad db) = execution_history db"
  by (simp add: sql_update_def)

lemma history_logExecution:
  "execution_history (logExecution db i st a b m) = execution_history db @
     [\<lparr> h_task_id = i, execution_status = st, started_at = a, finished_at = b,
        duration_ms = b - a, error_message_col = m \<rparr>]"
  by (simp add: logExecution_def)

text \<open>No update of the store touches column \<open>next_execution_at\<close>, whatever
  \<open>additionalData\<close> holds.\<close>

lemma updateTaskState_keeps_next_execution_at:
  "map next_execution_at (task_queue (snd (updateTaskState n db i st ad)))
     = map next_execution_at (task_queue db)"
  by (auto simp: updateTaskState_def sql_update_def apply_update_def Let_def
           split: sum.splits option.splits)

section \<open>Executing a task\<close>

text \<open>
  Claim C5.  When \<^verbatim>\<open>executeTask\<close> is called for a task whose state is
  \<open>processing\<close>, it fails with the invalid-state-transition error and the store is
  exactly as before: no row is written, the attempts are not incremented and no entry is
  added to the execution history.
\<close>

theorem executeTask_processing_rejected:
  assumes "findTaskById db taskId = Inr (Some t)"
    and "execution_state t = ''processing''"
  shows "TaskService_executeTask work deliverWebhook clk db taskId =
           (Inl (InvalidTaskStateError ''processing'' ''execute''), db)
       \<and> errorCode (InvalidTaskStateError ''processing'' ''execute'') = ''INVALID_STATE_TRANSITION''"
  using assms by (simp add: TaskService_executeTask_def)

theorem executeTask_processing_rejected_witness:
  "findTaskById (sample_db [busy_task ''t1'']) ''t1''
     = Inr (Some ((busy_task ''t1'')\<lparr>payload_data := JObj []\<rparr>))
   \<and> execution_state ((busy_task ''t1'')\<lparr>payload_data := JObj []\<rparr>) = ''processing''
   \<and> TaskService_executeTask simulateTaskExecution webhook_up sample_clock
        (sample_db [busy_task ''t1'']) ''t1''
       = (Inl (InvalidTaskStateError ''processing'' ''execute''), sample_db [busy_task ''t1''])"
proof -
  have found: "findTaskById (sample_db [busy_task ''t1'']) ''t1''
                 = Inr (Some ((busy_task ''t1'')\<lparr>payload_data := JObj []\<rparr>))"
    by code_simp
  have busy: "execution_state ((busy_task ''t1'')\<lparr>payload_data := JObj []\<rparr>) = ''processing''"
    by (simp add: busy_task_def)
  show ?thesis
    using executeTask_processing_rejected [OF found busy] found busy by simp
qed

lemma executeTask_try_fails:
  assumes "findTaskById db taskId = Inr (Some t)" and "work t = Inl msg"
  shows "executeTask_try work deliverWebhook clk db t taskId =
           (Inl (Error msg),
            sql_update (executedAt clk) taskId ''processing''
              (no_data\<lparr>ad_execution_attempts := Some (execution_attempts t + 1),
                        ad_last_executed_at := Some (Date (executedAt clk))\<rparr>) db)"
  using assms by (simp add: executeTask_try_def updateTaskState_found)

text \<open>
  Claim C6 (as amended).  When the work unit of a task that is not being processed throws
  an error, \<^verbatim>\<open>executeTask\<close> leaves the task in state \<open>failed\<close> with one more
  attempt and the duration recorded; \<open>failure_reason\<close> becomes the message of the error
  when the message is not empty, and stays as it was when the message is empty.  Every
  other column, \<open>next_execution_at\<close> among them, is as before, so the task is not queued
  again.  One failure entry is added to the execution history, and the caller receives the
  execution-failed error.  This holds for recurring tasks as well.
\<close>

theorem executeTask_failure_bookkeeping:
  assumes found: "findTaskById db taskId = Inr (Some t)"
    and idle: "execution_state t \<noteq> ''processing''"
    and raised: "work t = Inl msg"
  shows "fst (TaskService_executeTask work deliverWebhook clk db taskId)
           = Inl (TaskExecutionError taskId msg)
       \<and> findTaskById (snd (TaskService_executeTask work deliverWebhook clk db taskId)) taskId
           = Inr (Some (t\<lparr>execution_state := ''failed'',
                           execution_attempts := execution_attempts t + 1,
                           execution_duration_ms := Some (failedAt clk - startTime clk),
                           failure_reason := (if msg = [] then failure_reason t else Some msg),
                           last_executed_at := Some (Date (executedAt clk))\<rparr>))
       \<and> execution_history (snd (TaskService_executeTask work deliverWebhook clk db taskId))
           = execution_history db @
               [\<lparr> h_task_id = taskId, execution_status = ''failure'',
                  started_at = startTime clk, finished_at = failedAt clk,
                  duration_ms = failedAt clk - startTime clk,
                  error_message_col = Some msg \<rparr>]"
proof -
  let ?ad1 = "no_data\<lparr>ad_execution_attempts := Some (execution_attempts t + 1),
                       ad_last_executed_at := Some (Date (executedAt clk))\<rparr>"
  let ?db1 = "sql_update (executedAt clk) taskId ''processing'' ?ad1 db"
  let ?t1 = "apply_update (executedAt clk) ''processing'' ?ad1 t"
  let ?db2 = "logExecution ?db1 taskId ''failure'' (startTime clk) (failedAt clk) (Some msg)"
  let ?ad2 = "no_data\<lparr>ad_failure_reason := Some msg,
                       ad_execution_duration_ms := Some (failedAt clk - startTime clk)\<rparr>"
  let ?db3 = "sql_update (failedAt clk) taskId ''failed'' ?ad2 ?db2"
  have tried: "executeTask_try work deliverWebhook clk db t taskId = (Inl (Error msg), ?db1)"
    using found raised by (rule executeTask_try_fails)
  have f1: "findTaskById ?db2 taskId = Inr (Some ?t1)"
    using found by (simp add: findTaskById_sql_update)
  have caught: "executeTask_catch clk ?db1 taskId (Error msg)
                 = (Inl (TaskExecutionError taskId msg), ?db3)"
    using f1 by (simp add: executeTask_catch_def updateTaskState_found)
  have run: "TaskService_executeTask work deliverWebhook clk db taskId
               = (Inl (TaskExecutionError taskId msg), ?db3)"
    using found idle tried caught by (simp add: TaskService_executeTask_def)
  have f3: "findTaskById ?db3 taskId
              = Inr (Some (apply_update (failedAt clk) ''failed'' ?ad2 ?t1))"
    using f1 by (rule findTaskById_sql_update)
  have row: "apply_update (failedAt clk) ''failed'' ?ad2 ?t1
               = t\<lparr>execution_state := ''failed'',
                    execution_attempts := execution_attempts t + 1,
                    execution_duration_ms := Some (failedAt clk - startTime clk),
                    failure_reason := (if msg = [] then failure_reason t else Some msg),
                    last_executed_at := Some (Date (executedAt clk))\<rparr>"
    by (cases "msg = []") (simp_all add: apply_update_def no_data_def)
  have hist: "execution_history ?db3 = execution_history db @
               [\<lparr> h_task_id = taskId, execution_status = ''failure'',
                  started_at = startTime clk, finished_at = failedAt clk,
                  duration_ms = failedAt clk - startTime clk,
                  error_message_col = Some msg \<rparr>]"
    by (simp add: history_logExecution)
  show ?thesis
    unfolding run using f3 row hist by simp
qed

text \<open>A first run of a one-off task whose work unit throws \<^verbatim>\<open>Error("boom")\<close>:
  the task ends failed with one attempt and no next run.\<close>

theorem executeTask_failure_bookkeeping_witness:
  "findTaskById (sample_db [sample_task ''t1'']) ''t1''
     = Inr (Some ((sample_task ''t1'')\<lparr>payload_data := JObj []\<rparr>))
   \<and> execution_state ((sample_task ''t1'')\<lparr>payload_data := JObj []\<rparr>) \<noteq> ''processing''
   \<and> failing_work ''boom'' ((sample_task ''t1'')\<lparr>payload_data := JObj []\<rparr>) = Inl ''boom''
   \<and> fst (TaskService_executeTask (failing_work ''boom'') webhook_up sample_clock
             (sample_db [sample_task ''t1'']) ''t1'')
       = Inl (TaskExecutionError ''t1'' ''boom'')
   \<and> findTaskById (snd (TaskService_executeTask (failing_work ''boom'') webhook_up sample_clock
                           (sample_db [sample_task ''t1'']) ''t1'')) ''t1''
       = Inr (Some \<lparr> task_id = ''t1'', task_label = ''report'', payload_data = JObj [],
                      urgency_level = ''low'', schedule_pattern = None, is_recurring = False,
                      next_execution_at = None, execution_state = ''failed'',
                      execution_attempts = 1, execution_duration_ms = Some 3004,
                      failure_reason = Some ''boom'', last_executed_at = Some (Date 600001),
                      completed_at = None, spawned_at = 0 \<rparr>)"
proof -
  have found: "findTaskById (sample_db [sample_task ''t1'']) ''t1''
                 = Inr (Some ((sample_task ''t1'')\<lparr>payload_data := JObj []\<rparr>))"
    by code_simp
  have idle: "execution_state ((sample_task ''t1'')\<lparr>payload_data := JObj []\<rparr>) \<noteq> ''processing''"
    by (simp add: sample_task_def new_row_def)
  have raised: "failing_work ''boom'' ((sample_task ''t1'')\<lparr>payload_data := JObj []\<rparr>) = Inl ''boom''"
    by (simp add: failing_work_def)
  show ?thesis
    using executeTask_failure_bookkeeping
            [where work = "failing_work ''boom''" and deliverWebhook = webhook_up
               and clk = sample_clock, OF found idle raised]
      found idle raised
    by (simp add: sample_task_def new_row_def sample_clock_def)
qed

text \<open>
  The claim as stated, that \<open>failure_reason\<close> is set to the message of the error, fails
  for an error whose message is empty, such as \<^verbatim>\<open>new Error()\<close>:
  \<^verbatim>\<open>updateTaskState\<close> writes \<open>failure_reason\<close> only when the value is non-empty,
  so the column keeps its old value, here null.
\<close>

theorem executeTask_empty_message_counterexample:
  "fst (TaskService_executeTask (failing_work []) webhook_up sample_clock
          (sample_db [sample_task ''t1'']) ''t1'')
     = Inl (TaskExecutionError ''t1'' [])
   \<and> map execution_state (task_queue (snd (TaskService_executeTask (failing_work []) webhook_up
          sample_clock (sample_db [sample_task ''t1'']) ''t1''))) = [''failed'']
   \<and> map failure_reason (task_queue (snd (TaskService_executeTask (failing_work []) webhook_up
          sample_clock (sample_db [sample_task ''t1'']) ''t1''))) = [None]"
  by code_simp




text \<open>
  Claim C1.  A recurring task, due since instant 300000 and scheduled every five minutes,
  is executed successfully between the instants 600000 and 603001.  The engine computes
  903003 as the next run and passes it to \<^verbatim>\<open>updateTaskState\<close>, which moves the task
  back to \<open>queued\<close> but has no branch for \<open>next_execution_at\<close>: the stored value stays
  300000, before the end of the execution.
\<close>

theorem recurring_next_run_not_stored:
  "map execution_state (task_queue (snd (TaskService_executeTask simulateTaskExecution
        webhook_up sample_clock (sample_db [recurring_task ''t1'']) ''t1''))) = [''queued'']
   \<and> map next_execution_at (task_queue (snd (TaskService_executeTask simulateTaskExecution
        webhook_up sample_clock (sample_db [recurring_task ''t1'']) ''t1'')))
       = [Some (Date 300000)]
   \<and> calculateNextExecution (timeZone sample_clock) (scheduleNow sample_clock) ''*/5 * * * *''
       = Date 903003
   \<and> endTime sample_clock = 603001"
  by code_simp

section \<open>Manual execution and the concurrency limit\<close>

lemma manualExecuteTask_saturated:
  assumes "maxConcurrentTasks sch \<le> activeTasksCount sch"
  shows "manualExecuteTask work deliverWebhook clks sch db taskId
           = (Inl (ConcurrencyLimitError (activeTasksCount sch) (maxConcurrentTasks sch)), sch, db)"
  using assms by (simp add: manualExecuteTask_def manual_check_def)

text \<open>
  Claim C2.  With all five slots taken, \<^verbatim>\<open>manualExecuteTask\<close> refuses a queued task
  with the capacity error of status 429 and changes nothing.  The route
  \<^verbatim>\<open>POST /run-job/:id\<close> does not go through the scheduler: on the same store it
  executes the task, answers 200 and leaves the task completed, whatever the number of
  active executions.
\<close>

theorem run_job_route_ignores_limit:
  "manualExecuteTask simulateTaskExecution webhook_up (\<lambda>i. sample_clock) saturated_scheduler
       (sample_db [sample_task ''t1'']) ''t1''
     = (Inl (ConcurrencyLimitError 5 5), saturated_scheduler, sample_db [sample_task ''t1''])
   \<and> statusCode (ConcurrencyLimitError 5 5) = 429
   \<and> status (fst (POST_run_job simulateTaskExecution webhook_up sample_clock
                     (sample_db [sample_task ''t1'']) ''t1'')) = 200
   \<and> map execution_state (task_queue (snd (POST_run_job simulateTaskExecution webhook_up
          sample_clock (sample_db [sample_task ''t1'']) ''t1''))) = [''completed'']
   \<and> map execution_attempts (task_queue (snd (POST_run_job simulateTaskExecution webhook_up
          sample_clock (sample_db [sample_task ''t1'']) ''t1''))) = [1]"
  by code_simp

lemma step_keeps_bound:
  assumes "\<not> is_manual e" and "step e g = Some g'"
    and "activeTasksCount (sched g) \<le> maxConcurrentTasks (sched g)"
  shows "activeTasksCount (sched g') \<le> maxConcurrentTasks (sched g')"
  using assms
  by (cases e)
     (auto simp: submit_def drain_def leave_def enter_def Let_def
           split: if_splits list.splits option.splits prod.splits)

text \<open>Ticks, the working off of the queue and finished executions alone keep the number
  of active executions within the limit.\<close>

lemma run_events_keeps_bound:
  assumes "\<forall>e \<in> set es. \<not> is_manual e" and "run_events es g = Some g'"
    and "activeTasksCount (sched g) \<le> maxConcurrentTasks (sched g)"
  shows "activeTasksCount (sched g') \<le> maxConcurrentTasks (sched g')"
  using assms
proof (induction es arbitrary: g)
  case Nil
  then show ?case by simp
next
  case (Cons e es)
  from Cons.prems obtain g1 where g1: "step e g = Some g1" "run_events es g1 = Some g'"
    by (auto split: option.splits)
  have "activeTasksCount (sched g1) \<le> maxConcurrentTasks (sched g1)"
    using Cons.prems g1 by (auto intro: step_keeps_bound)
  then show ?case
    using Cons.IH [of g1] Cons.prems g1 by simp
qed

text \<open>
  Claim C3.  With a limit of one, two manual calls both pass the capacity check while no
  task is active; each then waits for the store and, when it resumes, increments the
  counter without a second check.  The counter reaches two.
\<close>

theorem manual_race_exceeds_limit:
  "count_and_limit
     (run_events [ManualCheck, ManualCheck, ManualResume (Some (sample_task ''a'')),
                  ManualResume (Some (sample_task ''b''))]
        (initial_gate (new_scheduler (Some ''1''))))
   = Some (2, 1)"
  by code_simp

section \<open>The overflow queue\<close>

lemma submit_saturated:
  assumes "maxConcurrentTasks (sched g) \<le> activeTasksCount (sched g)"
  shows "step (TickSubmit t) g = Some (g\<lparr>sched := (sched g)\<lparr>taskQueue := taskQueue (sched g) @ [t]\<rparr>\<rparr>)"
  using assms by (simp add: submit_def)

lemma finish_takes_head:
  assumes "0 < running g" and "k \<le> length (taskQueue (sched g))"
  shows "started_and_queued (run_events (replicate k Finish) g)
           = Some (started g @ take k (taskQueue (sched g)), drop k (taskQueue (sched g)))"
  using assms
proof (induction k arbitrary: g)
  case 0
  then show ?case by (simp add: started_and_queued_def)
next
  case (Suc k)
  then obtain t rest where q: "taskQueue (sched g) = t # rest"
    by (cases "taskQueue (sched g)") auto
  let ?g1 = "g\<lparr>sched := enter ((sched g)\<lparr>activeTasksCount := activeTasksCount (sched g) - 1,
                                          taskQueue := rest\<rparr>),
                started := started g @ [t]\<rparr>"
  have s: "step Finish g = Some ?g1"
    using Suc.prems q by (simp add: leave_def)
  have "started_and_queued (run_events (replicate k Finish) ?g1)
          = Some (started ?g1 @ take k (taskQueue (sched ?g1)), drop k (taskQueue (sched ?g1)))"
    using Suc.prems q by (intro Suc.IH) (simp_all add: enter_def)
  then show ?case
    using s q by (simp add: enter_def)
qed

text \<open>Whatever releases and rounds of the queue loop happen, the tasks started are the
  head of the queue, in order, and the rest of the queue is what remains.\<close>

lemma releases_take_queue_prefix:
  assumes "\<forall>e \<in> set es. e = Finish \<or> e = ProcessQueue"
    and "run_events es g = Some g'"
  shows "\<exists>k \<le> length es.
           started g' = started g @ take k (taskQueue (sched g))
           \<and> taskQueue (sched g') = drop k (taskQueue (sched g))"
  using assms
proof (induction es arbitrary: g)
  case Nil
  then show ?case by simp
next
  case (Cons e es)
  from Cons.prems(2) obtain g1 where g1: "step e g = Some g1" "run_events es g1 = Some g'"
    by (auto split: option.splits)
  from Cons.prems(1) have e: "e = Finish \<or> e = ProcessQueue"
    by simp
  have one: "(started g1 = started g \<and> taskQueue (sched g1) = taskQueue (sched g))
           \<or> (started g1 = started g @ take 1 (taskQueue (sched g))
               \<and> taskQueue (sched g1) = drop 1 (taskQueue (sched g)))"
    using e g1(1)
    by (auto simp: leave_def drain_def enter_def Let_def
             split: if_splits list.splits option.splits)
  obtain k where k: "k \<le> length es" "started g' = started g1 @ take k (taskQueue (sched g1))"
      "taskQueue (sched g') = drop k (taskQueue (sched g1))"
    using Cons.IH [OF _ g1(2)] Cons.prems(1) by auto
  from one show ?case
  proof
    assume "started g1 = started g \<and> taskQueue (sched g1) = taskQueue (sched g)"
    then show ?thesis
      using k by (intro exI [of _ k]) simp
  next
    assume "started g1 = started g @ take 1 (taskQueue (sched g))
            \<and> taskQueue (sched g1) = drop 1 (taskQueue (sched g))"
    then show ?thesis
      using k by (intro exI [of _ "Suc k"]) (cases "taskQueue (sched g)"; simp)
  qed
qed

text \<open>While tasks wait in the queue the gate is full, so a task that arrives later is
  never started ahead of them: it is queued behind them, and a manual call is refused.\<close>

lemma step_keeps_queue_behind_full_gate:
  assumes "step e g = Some g'"
    and "taskQueue (sched g) \<noteq> [] \<Longrightarrow> maxConcurrentTasks (sched g) \<le> activeTasksCount (sched g)"
    and "taskQueue (sched g') \<noteq> []"
  shows "maxConcurrentTasks (sched g') \<le> activeTasksCount (sched g')"
  using assms
  by (cases e)
     (auto simp: submit_def drain_def leave_def enter_def manual_check_def Let_def
           split: if_splits list.splits option.splits prod.splits sum.splits)

text \<open>
  Claim C7.  While the gate is saturated, tasks \<open>A\<close> and then \<open>B\<close> are put at the tail of
  the queue.  Every execution that finishes afterwards starts the task at the head of the
  queue: after \<open>k\<close> of them the tasks started are the first \<open>k\<close> of the queue followed by
  \<open>A\<close> and \<open>B\<close>, in this order, and the others still wait in this order.  No priority
  enters.
\<close>

theorem queue_is_first_in_first_out:
  assumes "maxConcurrentTasks (sched g) \<le> activeTasksCount (sched g)"
    and "0 < running g"
    and "k \<le> length (taskQueue (sched g)) + 2"
  shows "started_and_queued (run_events (TickSubmit A # TickSubmit B # replicate k Finish) g)
           = Some (started g @ take k (taskQueue (sched g) @ [A, B]),
                   drop k (taskQueue (sched g) @ [A, B]))"
proof -
  let ?g1 = "g\<lparr>sched := (sched g)\<lparr>taskQueue := taskQueue (sched g) @ [A]\<rparr>\<rparr>"
  let ?g2 = "g\<lparr>sched := (sched g)\<lparr>taskQueue := taskQueue (sched g) @ [A, B]\<rparr>\<rparr>"
  have s1: "step (TickSubmit A) g = Some ?g1"
    using assms(1) by (rule submit_saturated)
  have s2: "step (TickSubmit B) ?g1 = Some ?g2"
    using assms(1) by (simp add: submit_def)
  have "started_and_queued (run_events (replicate k Finish) ?g2)
          = Some (started ?g2 @ take k (taskQueue (sched ?g2)), drop k (taskQueue (sched ?g2)))"
    using assms(2,3) by (intro finish_takes_head) simp_all
  then show ?thesis
    using s1 s2 by simp
qed

text \<open>One slot frees after \<open>A\<close> and \<open>B\<close> were queued: \<open>A\<close> is started, \<open>B\<close> waits.\<close>

theorem queue_is_first_in_first_out_witness:
  "maxConcurrentTasks (sched busy_gate) \<le> activeTasksCount (sched busy_gate)
   \<and> 0 < running busy_gate
   \<and> (1::nat) \<le> length (taskQueue (sched busy_gate)) + 2
   \<and> started_and_queued
        (run_events [TickSubmit (sample_task ''a''), TickSubmit (sample_task ''b''), Finish]
           busy_gate)
       = Some ([sample_task ''x'', sample_task ''a''], [sample_task ''b''])"
proof -
  have sat: "maxConcurrentTasks (sched busy_gate) \<le> activeTasksCount (sched busy_gate)"
    by code_simp
  have run: "0 < running busy_gate"
    by (simp add: busy_gate_def)
  have few: "(1::nat) \<le> length (taskQueue (sched busy_gate)) + 2"
    by simp
  have q: "taskQueue (sched busy_gate) = []" "started busy_gate = [sample_task ''x'']"
    by (simp_all add: busy_gate_def new_scheduler_def)
  show ?thesis
    using queue_is_first_in_first_out
            [OF sat run few, of "sample_task ''a''" "sample_task ''b''"] sat run q
    by simp
qed

section \<open>Creating a task\<close>

text \<open>
  Claim C8.  A creation request whose name has 256 characters is accepted by the route
  \<^verbatim>\<open>POST /tasks\<close>: the service checks only that the name is not blank, and the
  validator that enforces the limit of 255 characters is not registered on the route.  The
  task is stored under the long name with status 201, while the validator, had it been
  called, would have refused the request.
\<close>

theorem long_label_accepted:
  "status (fst (POST_tasks ''id1'' utc_zone 1000 1000 (sample_db []) long_request)) = 201
   \<and> map length (map task_label (task_queue (snd (POST_tasks ''id1'' utc_zone 1000 1000
          (sample_db []) long_request)))) = [256]
   \<and> validateCreateTaskRequest long_request
       = Inl (ValidationError ''taskName'' ''Must be 255 characters or less'')"
  by code_simp

lemma split_on_five_minutes:
  "split_on CHR '' '' ''*/5 * * * *'' = [''*/5'', ''*'', ''*'', ''*'', ''*'']"
  by simp

lemma calculateNextExecution_five_minutes:
  "calculateNextExecution tz now ''*/5 * * * *'' = local_plus tz now 300000"
proof -
  have "parseInt ''5'' = Some 5"
    by code_simp
  then show ?thesis
    by (simp add: calculateNextExecution_def startsWith_def split_on_five_minutes
                  setMinutes_plus_def)
qed

text \<open>
  In a time zone that reads the local time five minutes ahead with the offset that local
  time had at the instant \<open>now\<close>, that is, when no transition falls in between, a valid
  creation request with schedule pattern \<^verbatim>\<open>*/5 * * * *\<close> stores a new row whose
  \<open>next_execution_at\<close> is \<open>now\<close> plus five minutes (300000 milliseconds).  The row is
  created at the database's instant \<open>dbNow\<close>, read a moment after \<open>now\<close>.
\<close>

lemma createTask_five_minutes_steady_zone:
  assumes valid: "validateTaskPayload req = Inr ()"
    and pattern: "schedulePattern req = Some ''*/5 * * * *''"
    and steady: "tza_local tz (now + tza_utc tz now + 300000) = tza_utc tz now"
    and lower: "- max_time \<le> now"
    and upper: "now + 300000 \<le> max_time"
  shows "map next_execution_at
           (task_queue (snd (TaskService_createTask newId tz now dbNow db req)))
           = map next_execution_at (task_queue db) @ [Some (Date (now + 300000))]
       \<and> map spawned_at (task_queue (snd (TaskService_createTask newId tz now dbNow db req)))
           = map spawned_at (task_queue db) @ [dbNow]"
proof -
  from valid obtain name pl pr
    where fields: "taskName req = Some name" "payload req = Some pl" "priority req = Some pr"
    by (auto simp: validateTaskPayload_def split: if_splits option.splits)
  have computed: "calculateNextExecution tz now ''*/5 * * * *'' = Date (now + 300000)"
    using steady lower upper
    by (simp add: calculateNextExecution_five_minutes local_plus_def Let_def make_date_def
                  max_time_def)
  show ?thesis
    using valid fields pattern computed
    by (simp add: TaskService_createTask_def TaskRepository_createTask_def new_row_def Let_def
             split: sum.splits option.splits prod.splits)
qed

lemma createTask_five_minutes_fixed_zone:
  assumes "validateTaskPayload req = Inr ()"
    and "schedulePattern req = Some ''*/5 * * * *''"
    and "- max_time \<le> now"
    and "now + 300000 \<le> max_time"
  shows "map next_execution_at
           (task_queue (snd (TaskService_createTask newId (fixed_zone off) now dbNow db req)))
           = map next_execution_at (task_queue db) @ [Some (Date (now + 300000))]"
  using createTask_five_minutes_steady_zone [OF assms(1,2) _ assms(3,4), of "fixed_zone off"]
  by (simp add: fixed_zone_def)

text \<open>
  Claim C9.  A task with schedule pattern \<^verbatim>\<open>*/5 * * * *\<close> is created at 06:30 UTC on
  1 November 2026 (instant 1793514600000) by a process in the zone
  \<^verbatim>\<open>America/New_York\<close>, where it is 01:30 for the second time that night.
  \<^verbatim>\<open>_calculateNextExecution\<close> adds five to the minutes of local time, and the local
  time 01:35 is read back with the offset before the transition: the stored
  \<open>next_execution_at\<close> is 1793511300000, which is 55 minutes before the creation and not
  five minutes after it.  The same request handled in UTC stores the creation time plus
  five minutes.
\<close>

theorem createTask_five_minutes_across_transition:
  "validateTaskPayload five_minute_request = Inr ()
   \<and> map next_execution_at
         (task_queue (snd (TaskService_createTask ''id1'' new_york_autumn_2026 1793514600000
                             1793514600002 (sample_db []) five_minute_request)))
       = [Some (Date (1793514600000 - 3300000))]
   \<and> map next_execution_at
         (task_queue (snd (TaskService_createTask ''id1'' utc_zone 1793514600000
                             1793514600002 (sample_db []) five_minute_request)))
       = [Some (Date (1793514600000 + 300000))]"
  by code_simp

section \<open>Writing and reading JSON\<close>

lemma digit_val_digit_char: "d < 16 \<Longrightarrow> digit_val (digit_char d) = Some d"
  by (auto simp: digit_val_def digit_char_def Let_def)

lemma is_digit_digit_char: "d < 10 \<Longrightarrow> is_digit_in 10 (digit_char d)"
  by (simp add: is_digit_in_def digit_val_digit_char)

lemma is_hex_digit_char: "d < 16 \<Longrightarrow> is_digit_in 16 (digit_char d)"
  by (simp add: is_digit_in_def digit_val_digit_char)

lemma digit_char_zero: "d < 16 \<Longrightarrow> digit_char d = CHR ''0'' \<Longrightarrow> d = 0"
proof -
  assume lt: "d < 16" and z: "digit_char d = CHR ''0''"
  have "digit_val (digit_char d) = Some d"
    using lt by (rule digit_val_digit_char)
  then have "digit_val (CHR ''0'') = Some d"
    by (simp only: z)
  then show "d = 0"
    by (simp add: digit_val_def)
qed

lemma digits_value_snoc:
  "digits_value r (ds @ [c]) = digits_value r ds * r + (case digit_val c of None \<Rightarrow> 0 | Some d \<Rightarrow> d)"
  by (simp add: digits_value_def)

lemma dec_digits_value: "digits_value 10 (dec_digits n) = n"
proof (induction n rule: dec_digits.induct)
  case (1 n)
  show ?case
  proof (cases "n < 10")
    case True
    then show ?thesis
      by (subst dec_digits.simps) (simp add: digits_value_def digit_val_digit_char)
  next
    case False
    then show ?thesis
      using 1 by (subst dec_digits.simps) (simp add: digits_value_snoc digit_val_digit_char)
  qed
qed

lemma dec_digits_all: "list_all (is_digit_in 10) (dec_digits n)"
proof (induction n rule: dec_digits.induct)
  case (1 n)
  show ?case
  proof (cases "n < 10")
    case True
    then show ?thesis
      by (subst dec_digits.simps) (simp add: is_digit_digit_char)
  next
    case False
    then show ?thesis
      using 1 by (subst dec_digits.simps) (simp add: is_digit_digit_char)
  qed
qed

lemma dec_digits_nonempty: "dec_digits n \<noteq> []"
  by (subst dec_digits.simps) simp

lemma dec_digits_no_leading_zero:
  "1 < length (dec_digits n) \<Longrightarrow> hd (dec_digits n) \<noteq> CHR ''0''"
proof (induction n rule: dec_digits.induct)
  case (1 n)
  show ?case
  proof (cases "n < 10")
    case True
    then have "dec_digits n = [digit_char n]"
      by (subst dec_digits.simps) simp
    with "1.prems" show ?thesis by simp
  next
    case False
    then have eq: "dec_digits n = dec_digits (n div 10) @ [digit_char (n mod 10)]"
      by (subst dec_digits.simps) simp
    show ?thesis
    proof (cases "n div 10 < 10")
      case True
      then have "dec_digits (n div 10) = [digit_char (n div 10)]"
        by (subst dec_digits.simps) simp
      moreover have "0 < n div 10" using False by simp
      ultimately show ?thesis
        using eq True digit_char_zero [of "n div 10"] by auto
    next
      case F2: False
      then have "1 < length (dec_digits (n div 10))"
        by (subst dec_digits.simps) (simp add: dec_digits_nonempty Suc_lessI)
      then have "hd (dec_digits (n div 10)) \<noteq> CHR ''0''"
        using 1 False by simp
      then show ?thesis
        using eq by (simp add: dec_digits_nonempty)
    qed
  qed
qed

lemma takeWhile_digits:
  assumes "list_all P ds" and "rest = [] \<or> \<not> P (hd rest)"
  shows "takeWhile P (ds @ rest) = ds" and "dropWhile P (ds @ rest) = rest"
  using assms by (induction ds) (cases rest; auto)+

lemma ends_value_no_digit: "ends_value rest \<Longrightarrow> rest = [] \<or> \<not> is_digit_in 10 (hd rest)"
  by (auto simp: ends_value_def is_digit_in_def digit_val_def split: list.splits)

lemma ends_value_no_fraction: "ends_value rest \<Longrightarrow> \<not> (rest \<noteq> [] \<and> hd rest \<in> set ''.eE'')"
  by (auto simp: ends_value_def split: list.splits)

lemma digit_not_minus: "is_digit_in 10 c \<Longrightarrow> c \<noteq> CHR ''-''"
  by (auto simp: is_digit_in_def digit_val_def)

lemma hd_dec_digits: "is_digit_in 10 (hd (dec_digits n))"
  using dec_digits_all [of n] dec_digits_nonempty [of n]
  by (cases "dec_digits n") auto

lemma parse_digits:
  assumes "ends_value rest"
  shows "parse_number (dec_digits m @ rest) = Some (JNum (int m), rest)"
proof -
  have nonneg: "\<not> (dec_digits m @ rest \<noteq> [] \<and> hd (dec_digits m @ rest) = CHR ''-'')"
    using hd_dec_digits [of m] digit_not_minus dec_digits_nonempty [of m] by auto
  have tw: "takeWhile (is_digit_in 10) (dec_digits m @ rest) = dec_digits m"
    and dw: "dropWhile (is_digit_in 10) (dec_digits m @ rest) = rest"
    using takeWhile_digits [OF dec_digits_all ends_value_no_digit [OF assms]] by auto
  show ?thesis
    unfolding parse_number_def Let_def
    using nonneg tw dw dec_digits_nonempty [of m] dec_digits_no_leading_zero [of m]
      ends_value_no_fraction [OF assms]
    by (simp add: dec_digits_value)
qed

lemma parse_number_int_str:
  assumes "ends_value rest"
  shows "parse_number (int_str n @ rest) = Some (JNum n, rest)"
proof (cases "n < 0")
  case False
  then show ?thesis
    using parse_digits [OF assms, of "nat n"] by (simp add: int_str_def)
next
  case True
  have tw: "takeWhile (is_digit_in 10) (dec_digits (nat (- n)) @ rest) = dec_digits (nat (- n))"
    and dw: "dropWhile (is_digit_in 10) (dec_digits (nat (- n)) @ rest) = rest"
    using takeWhile_digits [OF dec_digits_all ends_value_no_digit [OF assms]] by auto
  show ?thesis
    unfolding parse_number_def Let_def int_str_def
    using True tw dw dec_digits_nonempty [of "nat (- n)"]
      dec_digits_no_leading_zero [of "nat (- n)"] ends_value_no_fraction [OF assms]
    by (simp add: dec_digits_value)
qed

lemma hex4_escape:
  assumes "(of_char c :: nat) = n"
  shows "hex4 (CHR ''0'' # CHR ''0'' # digit_char (n div 16) # digit_char (n mod 16) # s) = Some c"
proof -
  have n: "n < 256"
    using assms by (metis of_char_mod_256 mod_less_divisor zero_less_numeral)
  then have d: "n div 16 < 16" "n mod 16 < 16"
    by simp_all
  have z: "is_digit_in 16 CHR ''0''" "digit_val CHR ''0'' = Some 0"
    by (simp_all add: is_digit_in_def digit_val_def)
  have v: "digits_value 16 [CHR ''0'', CHR ''0'', digit_char (n div 16), digit_char (n mod 16)] = n"
    using d by (simp add: digits_value_def z digit_val_digit_char)
  show ?thesis
    unfolding hex4_def Let_def
    using d n v assms by (auto simp: z is_hex_digit_char)
qed

lemma parse_chars_esc:
  "parse_chars (esc_char c @ s) =
     (case parse_chars s of None \<Rightarrow> None | Some (str, rest) \<Rightarrow> Some (c # str, rest))"
proof -
  consider (special) "c \<in> set [CHR 0x22, CHR 0x5C, CHR 0x08, CHR 0x0C, CHR 0x0A, CHR 0x0D, CHR 0x09]"
    | (control) "c \<notin> set [CHR 0x22, CHR 0x5C, CHR 0x08, CHR 0x0C, CHR 0x0A, CHR 0x0D, CHR 0x09]"
        "(of_char c :: nat) < 32"
    | (plain) "c \<notin> set [CHR 0x22, CHR 0x5C, CHR 0x08, CHR 0x0C, CHR 0x0A, CHR 0x0D, CHR 0x09]"
        "\<not> (of_char c :: nat) < 32"
    by blast
  then show ?thesis
  proof cases
    case special
    then show ?thesis
      by (auto simp: esc_char_def unescape_def split: option.splits)
  next
    case control
    then have e: "esc_char c @ s = CHR 0x5C # CHR ''u'' # CHR ''0'' # CHR ''0'' #
                     digit_char ((of_char c :: nat) div 16) # digit_char ((of_char c :: nat) mod 16) # s"
      by (simp add: esc_char_def)
    show ?thesis
      unfolding e by (simp add: hex4_escape [OF refl] split: option.splits)
  next
    case plain
    then show ?thesis
      by (simp add: esc_char_def split: option.splits)
  qed
qed

lemma parse_chars_quote:
  "parse_chars (concat (map esc_char s) @ CHR 0x22 # rest) = Some (s, rest)"
  by (induction s) (simp_all add: parse_chars_esc del: parse_chars.simps, simp)

lemma canonical_keys_butlast: "canonical_keys (ks @ [k]) \<Longrightarrow> canonical_keys ks"
  by (induction ks) (auto split: if_splits)

lemma obj_insert_last:
  "canonical_keys (map fst kvs @ [k]) \<Longrightarrow> obj_insert kvs k v = kvs @ [(k, v)]"
  by (induction kvs) (auto split: if_splits)

lemma build_object_canonical:
  "canonical_keys (map fst kvs) \<Longrightarrow> build_object kvs = kvs"
proof (induction kvs rule: rev_induct)
  case Nil
  then show ?case by (simp add: build_object_def)
next
  case (snoc x kvs)
  obtain k v where x: "x = (k, v)" by (cases x)
  have c: "canonical_keys (map fst kvs @ [k])"
    using snoc.prems x by simp
  then have "build_object kvs = kvs"
    using snoc.IH canonical_keys_butlast by blast
  then show ?case
    using c x by (simp add: build_object_def obj_insert_last)
qed

lemma value_start_not_ws: "value_start c \<Longrightarrow> \<not> is_json_ws c"
  by (auto simp: value_start_def is_json_ws_def is_digit_in_def digit_val_def)

lemma value_start_not_close: "value_start c \<Longrightarrow> c \<noteq> CHR '']'' \<and> c \<noteq> CHR ''}''"
  by (auto simp: value_start_def is_digit_in_def digit_val_def)

lemma skip_ws_start: "value_start c \<Longrightarrow> skip_ws (c # s) = c # s"
  by (simp add: skip_ws_def value_start_not_ws)

lemma skip_ws_punct [simp]:
  "skip_ws (CHR '','' # s) = CHR '','' # s"
  "skip_ws (CHR '']'' # s) = CHR '']'' # s"
  "skip_ws (CHR ''}'' # s) = CHR ''}'' # s"
  "skip_ws (CHR '':'' # s) = CHR '':'' # s"
  "skip_ws (CHR 0x22 # s) = CHR 0x22 # s"
  by (simp_all add: skip_ws_def is_json_ws_def)

lemma int_str_start: "\<exists>c cs. int_str n = c # cs \<and> (c = CHR ''-'' \<or> is_digit_in 10 c)"
proof (cases "n < 0")
  case True
  then show ?thesis by (simp add: int_str_def)
next
  case False
  then show ?thesis
    using hd_dec_digits [of "nat n"] dec_digits_nonempty [of "nat n"]
    by (cases "dec_digits (nat n)") (auto simp: int_str_def)
qed

lemma join_with_Cons:
  "join_with sep (x # xs) = (if xs = [] then x else x @ sep @ join_with sep xs)"
  by (cases xs) simp_all

lemma stringify_start: "\<exists>c cs. JSON_stringify v = c # cs \<and> value_start c"
proof (cases v)
  case (JNum n)
  then show ?thesis
    using int_str_start [of n] by (auto simp: value_start_def)
qed (auto simp: value_start_def quote_def)

lemma ends_value_punct [simp]:
  "ends_value []" "ends_value (CHR '','' # s)" "ends_value (CHR '']'' # s)"
  "ends_value (CHR ''}'' # s)"
  by (simp_all add: ends_value_def)

lemma parse_elems_join:
  assumes elems: "\<And>x F rest. x \<in> set xs \<Longrightarrow> ends_value rest \<Longrightarrow> length (JSON_stringify x) < F
                    \<Longrightarrow> parse_value F (JSON_stringify x @ rest) = Some (x, rest)"
    and "xs \<noteq> []"
    and "length (join_with '','' (map JSON_stringify xs)) + 1 < G"
  shows "parse_elems G (join_with '','' (map JSON_stringify xs) @ CHR '']'' # rest) = Some (xs, rest)"
  using assms
proof (induction xs arbitrary: G)
  case Nil
  then show ?case by simp
next
  case (Cons x xs)
  from Cons.prems(3) obtain n where G: "G = Suc n"
    by (cases G) auto
  show ?case
  proof (cases "xs = []")
    case True
    have "length (JSON_stringify x) < n"
      using Cons.prems(3) True G by simp
    then have "parse_value n (JSON_stringify x @ CHR '']'' # rest) = Some (x, CHR '']'' # rest)"
      using Cons.prems(1) [of x "CHR '']'' # rest" n] by simp
    then show ?thesis
      using True G by simp
  next
    case False
    let ?tail = "join_with '','' (map JSON_stringify xs) @ CHR '']'' # rest"
    have len: "length (JSON_stringify x) < n" "length (join_with '','' (map JSON_stringify xs)) + 1 < n"
      using Cons.prems(3) False G by (simp_all add: join_with_Cons)
    have head: "parse_value n (JSON_stringify x @ CHR '','' # ?tail) = Some (x, CHR '','' # ?tail)"
      using Cons.prems(1) [of x "CHR '','' # ?tail" n] len by simp
    have rest: "parse_elems n ?tail = Some (xs, rest)"
      using Cons.IH [of n] Cons.prems(1) False len by simp
    show ?thesis
      using False G head rest by (simp add: join_with_Cons)
  qed
qed

lemma member_text_pair: "member_text (k, v) = quote k @ CHR '':'' # JSON_stringify v"
  by (simp add: member_text_def)

lemma parse_members_join:
  assumes vals: "\<And>v F rest. v \<in> set (map snd kvs) \<Longrightarrow> ends_value rest \<Longrightarrow> length (JSON_stringify v) < F
                    \<Longrightarrow> parse_value F (JSON_stringify v @ rest) = Some (v, rest)"
    and "kvs \<noteq> []"
    and "length (join_with '','' (map member_text kvs)) + 1 < G"
  shows "parse_members G (join_with '','' (map member_text kvs) @ CHR ''}'' # rest) = Some (kvs, rest)"
  using assms
proof (induction kvs arbitrary: G)
  case Nil
  then show ?case by simp
next
  case (Cons kv kvs)
  obtain k v where kv: "kv = (k, v)" by (cases kv)
  from Cons.prems(3) obtain n where G: "G = Suc n"
    by (cases G) auto
  have key: "parse_chars (concat (map esc_char k) @ CHR 0x22 # CHR '':'' # s) = Some (k, CHR '':'' # s)" for s
    by (rule parse_chars_quote)
  show ?case
  proof (cases "kvs = []")
    case True
    have "length (JSON_stringify v) < n"
      using Cons.prems(3) True G kv by (simp add: member_text_pair)
    then have "parse_value n (JSON_stringify v @ CHR ''}'' # rest) = Some (v, CHR ''}'' # rest)"
      using Cons.prems(1) [of v "CHR ''}'' # rest" n] kv by simp
    then show ?thesis
      using True G kv key by (simp add: member_text_pair quote_def)
  next
    case False
    let ?tail = "join_with '','' (map member_text kvs) @ CHR ''}'' # rest"
    have len: "length (JSON_stringify v) < n" "length (join_with '','' (map member_text kvs)) + 1 < n"
      using Cons.prems(3) False G kv by (simp_all add: join_with_Cons member_text_pair)
    have head: "parse_value n (JSON_stringify v @ CHR '','' # ?tail) = Some (v, CHR '','' # ?tail)"
      using Cons.prems(1) [of v "CHR '','' # ?tail" n] len kv by simp
    have rest: "parse_members n ?tail = Some (kvs, rest)"
      using Cons.IH [of n] Cons.prems(1) False len by simp
    show ?thesis
      using False G kv key head rest by (simp add: join_with_Cons member_text_pair quote_def)
  qed
qed

lemma member_text_eq: "(\<lambda>(k, v). quote k @ CHR '':'' # JSON_stringify v) = member_text"
  by (auto simp: member_text_def fun_eq_iff)

lemma startsWith_Cons:
  "startsWith (p # ps) (c # cs) = (c = p \<and> startsWith ps cs)"
  "startsWith [] s = True"
  by (auto simp: startsWith_def)

lemma skip_ws_open [simp]:
  "skip_ws (CHR ''['' # s) = CHR ''['' # s"
  "skip_ws (CHR ''{'' # s) = CHR ''{'' # s"
  by (simp_all add: skip_ws_def is_json_ws_def)

lemma join_start:
  assumes "xs \<noteq> []"
  shows "\<exists>c cs. join_with sep (map JSON_stringify xs) = c # cs \<and> value_start c"
proof -
  obtain x ys where xs: "xs = x # ys"
    using assms by (cases xs) auto
  obtain c cs where "JSON_stringify x = c # cs" "value_start c"
    using stringify_start by blast
  then show ?thesis
    using xs by (simp add: join_with_Cons)
qed

lemma members_start:
  assumes "kvs \<noteq> []"
  shows "\<exists>cs. join_with sep (map member_text kvs) = CHR 0x22 # cs"
proof -
  obtain kv ys where "kvs = kv # ys"
    using assms by (cases kvs) auto
  then show ?thesis
    by (simp add: join_with_Cons member_text_def quote_def)
qed

lemma parse_value_stringify:
  "serializable v \<Longrightarrow> ends_value rest \<Longrightarrow> length (JSON_stringify v) < F
     \<Longrightarrow> parse_value F (JSON_stringify v @ rest) = Some (v, rest)"
proof (induction v arbitrary: F rest)
  case JNull
  then obtain n where "F = Suc n" by (cases F) auto
  then show ?case
    by (simp add: skip_ws_def is_json_ws_def startsWith_def)
next
  case (JBool b)
  then obtain n where "F = Suc n" by (cases F) auto
  then show ?case
    by (simp add: skip_ws_def is_json_ws_def startsWith_def)
next
  case (JNum i)
  then obtain n where F: "F = Suc n" by (cases F) auto
  obtain c cs where c: "int_str i = c # cs" "c = CHR ''-'' \<or> is_digit_in 10 c"
    using int_str_start by blast
  then have vs: "value_start c"
    by (auto simp: value_start_def)
  have notlit: "c \<notin> set [CHR ''n'', CHR ''t'', CHR ''f'', CHR 0x22, CHR ''['', CHR ''{'']"
    using c(2) by (auto simp: is_digit_in_def digit_val_def)
  have "parse_number (c # cs @ rest) = Some (JNum i, rest)"
    using parse_number_int_str [OF JNum.prems(2), of i] c(1) by simp
  then show ?case
    using F c(1) vs notlit by (simp add: skip_ws_start startsWith_Cons Let_def)
next
  case (JStr s)
  then obtain n where F: "F = Suc n" by (cases F) auto
  show ?case
    using F by (simp add: quote_def startsWith_Cons parse_chars_quote Let_def del: parse_chars.simps)
next
  case (JArr xs)
  then obtain n where F: "F = Suc n" by (cases F) auto
  show ?case
  proof (cases "xs = []")
    case True
    then show ?thesis
      using F by (simp add: startsWith_Cons Let_def)
  next
    case False
    let ?body = "join_with '','' (map JSON_stringify xs)"
    obtain c cs where c: "?body = c # cs" "value_start c"
      using join_start [OF False] by blast
    have elems: "parse_value G (JSON_stringify x @ r) = Some (x, r)"
      if "x \<in> set xs" "ends_value r" "length (JSON_stringify x) < G" for x G r
      using JArr.IH [OF that(1) _ that(2,3)] JArr.prems(1) that(1)
      by (simp add: list_all_iff)
    have len: "length ?body + 1 < n"
      using JArr.prems(3) F by simp
    have "parse_elems n (?body @ CHR '']'' # rest) = Some (xs, rest)"
      using elems False len by (rule parse_elems_join)
    then show ?thesis
      using F c value_start_not_close [OF c(2)]
      by (simp add: startsWith_Cons skip_ws_start Let_def)
  qed
next
  case (JObj kvs)
  then obtain n where F: "F = Suc n" by (cases F) auto
  show ?case
  proof (cases "kvs = []")
    case True
    then show ?thesis
      using F by (simp add: startsWith_Cons Let_def)
  next
    case False
    let ?body = "join_with '','' (map member_text kvs)"
    obtain cs where c: "?body = CHR 0x22 # cs"
      using members_start [OF False] by blast
    have vals: "parse_value G (JSON_stringify v @ r) = Some (v, r)"
      if "v \<in> set (map snd kvs)" "ends_value r" "length (JSON_stringify v) < G" for v G r
    proof -
      from that(1) obtain kv where kv: "kv \<in> set kvs" "v = snd kv"
        by auto
      have "v \<in> Basic_BNFs.snds kv"
        unfolding kv(2) by (rule Basic_BNFs.snds.intros)
      moreover have "serializable v"
        using JObj.prems(1) that(1) by (auto simp: list_all_iff)
      ultimately show ?thesis
        using JObj.IH [OF kv(1) _ _ that(2,3)] by blast
    qed
    have len: "length ?body + 1 < n"
      using JObj.prems(3) F by (simp add: member_text_eq)
    have "parse_members n (?body @ CHR ''}'' # rest) = Some (kvs, rest)"
      using vals False len by (rule parse_members_join)
    moreover have "build_object kvs = kvs"
      using JObj.prems(1) by (simp add: build_object_canonical)
    ultimately show ?thesis
      using F c by (simp add: startsWith_Cons member_text_eq Let_def)
  qed
qed

lemma JSON_round_trip: "serializable v \<Longrightarrow> JSON_parse (JSON_stringify v) = Some v"
  using parse_value_stringify [of v "[]" "Suc (length (JSON_stringify v))"]
  by (simp add: JSON_parse_def skip_ws_def)

section \<open>The payload through the store\<close>

lemma formatTaskData_new_row:
  assumes "serializable (td_payload_data taskData)"
  shows "formatTaskData (new_row dbNow taskData)
           = Inr ((new_row dbNow taskData)\<lparr>payload_data := td_payload_data taskData\<rparr>)"
  using assms by (simp add: formatTaskData_def new_row_def JSON_round_trip)

lemma format_rows_member:
  "format_rows rows = Inr ts \<Longrightarrow> t \<in> set ts \<Longrightarrow> \<exists>row \<in> set rows. formatTaskData row = Inr t"
  by (induction rows arbitrary: ts) (auto split: sum.splits)

lemma findAllTasks_member:
  assumes "findAllTasks db filters = Inr ts" and "t \<in> set ts"
  shows "\<exists>row \<in> set (task_queue db). formatTaskData row = Inr t"
proof -
  let ?rows = "sort_key (\<lambda>row. - spawned_at row) (filter (matches_filters filters) (task_queue db))"
  have all: "set ?rows \<subseteq> set (task_queue db)"
    by auto
  have some: "set (take n ?rows) \<subseteq> set (task_queue db)" for n
    using set_take_subset [of n ?rows] all by blast
  from assms(1) have "format_rows ?rows = Inr ts \<or> (\<exists>n. format_rows (take n ?rows) = Inr ts)"
    by (auto simp: findAllTasks_def Let_def split: option.splits if_splits sum.splits)
  then obtain rs where rs: "format_rows rs = Inr ts" "set rs \<subseteq> set (task_queue db)"
    using all some by blast
  then obtain row where "row \<in> set rs" "formatTaskData row = Inr t"
    using format_rows_member assms(2) by blast
  then show ?thesis
    using rs(2) by auto
qed

lemma formatTaskData_task_id: "formatTaskData row = Inr t \<Longrightarrow> task_id t = task_id row"
  by (auto simp: formatTaskData_def split: json.splits option.splits)

lemma format_rows_all:
  assumes "\<forall>row \<in> set rows. \<exists>t. formatTaskData row = Inr t"
  shows "\<exists>ts. format_rows rows = Inr ts
           \<and> (\<forall>row \<in> set rows. \<forall>t. formatTaskData row = Inr t \<longrightarrow> t \<in> set ts)"
  using assms by (induction rows) (auto split: sum.splits)

lemma format_rows_each:
  "format_rows rows = Inr ts \<Longrightarrow> row \<in> set rows \<Longrightarrow> \<exists>t. formatTaskData row = Inr t"
  by (induction rows arbitrary: ts) (auto split: sum.splits)

text \<open>When every row already in the table can be read, the unfiltered list is returned
  and holds the created task.\<close>

lemma findAllTasks_lists_created:
  assumes ser: "serializable (td_payload_data taskData)"
    and readable: "format_rows (task_queue db) = Inr old"
  shows "\<exists>ts. findAllTasks (snd (TaskRepository_createTask dbNow db taskData)) no_filters = Inr ts
           \<and> (new_row dbNow taskData)\<lparr>payload_data := td_payload_data taskData\<rparr> \<in> set ts"
proof -
  let ?new = "new_row dbNow taskData"
  let ?rows = "sort_key (\<lambda>row. - spawned_at row) (task_queue db @ [?new])"
  have db': "task_queue (snd (TaskRepository_createTask dbNow db taskData)) = task_queue db @ [?new]"
    by (simp add: TaskRepository_createTask_def Let_def split: sum.splits)
  have "\<forall>row \<in> set ?rows. \<exists>t. formatTaskData row = Inr t"
    using format_rows_each [OF readable] formatTaskData_new_row [OF ser, of dbNow] by auto
  then obtain ts where ts: "format_rows ?rows = Inr ts"
      "\<forall>row \<in> set ?rows. \<forall>t. formatTaskData row = Inr t \<longrightarrow> t \<in> set ts"
    using format_rows_all by blast
  have "?new\<lparr>payload_data := td_payload_data taskData\<rparr> \<in> set ts"
    using ts(2) formatTaskData_new_row [OF ser, of dbNow] by auto
  moreover have "findAllTasks (snd (TaskRepository_createTask dbNow db taskData)) no_filters = Inr ts"
    using ts(1) by (simp add: findAllTasks_def db' no_filters_def matches_filters_def)
  ultimately show ?thesis
    by blast
qed

text \<open>
  Claim C10.  A task is created under an identifier that no row has yet, with a
  serializable payload \<open>p\<close>.  The store holds the text \<^verbatim>\<open>JSON.stringify(p)\<close>;
  \<^verbatim>\<open>createTask\<close> returns, and \<^verbatim>\<open>findTaskById\<close> reads back, the row with
  \<open>payload_data\<close> equal to \<open>p\<close>; and every task of that identifier that
  \<^verbatim>\<open>findAllTasks\<close> returns, under any filters, has \<open>payload_data\<close> equal to \<open>p\<close>.
\<close>

theorem payload_round_trip:
  assumes ser: "serializable (td_payload_data taskData)"
    and fresh: "td_task_id taskData \<notin> task_id ` set (task_queue db)"
  shows "fst (TaskRepository_createTask dbNow db taskData)
           = Inr (Some ((new_row dbNow taskData)\<lparr>payload_data := td_payload_data taskData\<rparr>))
       \<and> findTaskById (snd (TaskRepository_createTask dbNow db taskData)) (td_task_id taskData)
           = Inr (Some ((new_row dbNow taskData)\<lparr>payload_data := td_payload_data taskData\<rparr>))
       \<and> (\<forall>filters ts t.
             findAllTasks (snd (TaskRepository_createTask dbNow db taskData)) filters = Inr ts
             \<longrightarrow> t \<in> set ts \<longrightarrow> task_id t = td_task_id taskData
             \<longrightarrow> payload_data t = td_payload_data taskData)"
proof -
  let ?db' = "db\<lparr>task_queue := task_queue db @ [new_row dbNow taskData]\<rparr>"
  let ?t = "(new_row dbNow taskData)\<lparr>payload_data := td_payload_data taskData\<rparr>"
  have other: "task_id row \<noteq> td_task_id taskData" if "row \<in> set (task_queue db)" for row
    using fresh that by force
  have none: "filter (\<lambda>row. task_id row = td_task_id taskData) (task_queue db) = []"
    using other by (simp add: filter_empty_conv)
  have new_id: "task_id (new_row dbNow taskData) = td_task_id taskData"
    by (simp add: new_row_def)
  have found: "findTaskById ?db' (td_task_id taskData) = Inr (Some ?t)"
    using none new_id by (simp add: findTaskById_def formatTaskData_new_row [OF ser])
  have created: "TaskRepository_createTask dbNow db taskData = (Inr (Some ?t), ?db')"
    using found by (simp add: TaskRepository_createTask_def)
  have listed: "payload_data t = td_payload_data taskData"
    if lst: "findAllTasks ?db' filters = Inr ts" and mem: "t \<in> set ts"
      and same: "task_id t = td_task_id taskData"
    for filters ts t
  proof -
    obtain row where row: "row \<in> set (task_queue ?db')" "formatTaskData row = Inr t"
      using findAllTasks_member [OF lst mem] by blast
    then have "task_id row = td_task_id taskData"
      using same formatTaskData_task_id by fastforce
    then have "row = new_row dbNow taskData"
      using row(1) other by auto
    then show ?thesis
      using row(2) formatTaskData_new_row [OF ser, of dbNow] by auto
  qed
  show ?thesis
    unfolding created fst_conv snd_conv using found listed by blast
qed

theorem payload_round_trip_witness:
  "serializable (td_payload_data sample_task_data)
   \<and> td_task_id sample_task_data \<notin> task_id ` set (task_queue (sample_db [sample_task ''t1'']))
   \<and> findAllTasks (snd (TaskRepository_createTask 5 (sample_db [sample_task ''t1''])
                           sample_task_data)) no_filters
       = Inr [(new_row 5 sample_task_data)\<lparr>payload_data := sample_payload\<rparr>,
              (sample_task ''t1'')\<lparr>payload_data := JObj []\<rparr>]
   \<and> task_id ((new_row 5 sample_task_data)\<lparr>payload_data := sample_payload\<rparr>)
       = td_task_id sample_task_data
   \<and> findTaskById (snd (TaskRepository_createTask 5 (sample_db [sample_task ''t1''])
                           sample_task_data)) ''t2''
       = Inr (Some ((new_row 5 sample_task_data)\<lparr>payload_data := sample_payload\<rparr>))
   \<and> payload_data ((new_row 5 sample_task_data)\<lparr>payload_data := sample_payload\<rparr>)
       = sample_payload"
proof -
  have ser: "serializable (td_payload_data sample_task_data)"
    by code_simp
  have fresh: "td_task_id sample_task_data
                 \<notin> task_id ` set (task_queue (sample_db [sample_task ''t1'']))"
    by (simp add: sample_task_data_def sample_db_def sample_task_def new_row_def)
  have listed: "findAllTasks (snd (TaskRepository_createTask 5 (sample_db [sample_task ''t1''])
                                      sample_task_data)) no_filters
                  = Inr [(new_row 5 sample_task_data)\<lparr>payload_data := sample_payload\<rparr>,
                         (sample_task ''t1'')\<lparr>payload_data := JObj []\<rparr>]"
    by code_simp
  have same_id: "task_id ((new_row 5 sample_task_data)\<lparr>payload_data := sample_payload\<rparr>)
                   = td_task_id sample_task_data"
    by (simp add: new_row_def)
  have pl: "td_payload_data sample_task_data = sample_payload" "td_task_id sample_task_data = ''t2''"
    by (simp_all add: sample_task_data_def)
  show ?thesis
    using payload_round_trip [OF ser fresh, of 5] ser fresh listed same_id pl
    by simp
qed

end
